theory Spec2Isabelle
  imports Main "HOL-Library.Word"
begin

section \<open>The test registry (mpitest.h, mpitest.cpp)\<close>

text \<open>
  The structs of \<^verbatim>\<open>mpitest.h\<close> become records. An entry point (\<^verbatim>\<open>test_ptr\<close>) is a
  black box to the harness: it receives the communicator of the test and reaches the
  registry only through the assertion predicates. It is modelled by the failure records
  it registers, in order, on a process with a given rank in a communicator of a given
  size.
\<close>

record assert_info =
  line :: int
  file_name :: string
  test_string :: string

record fail_info =
  assertion :: assert_info
  reason :: string

type_synonym test_ptr = "int \<Rightarrow> int \<Rightarrow> fail_info list"

record test_info =
  fptr :: test_ptr
  test_size :: int
  test_name :: string
  fails :: "fail_info list"

record test_list =
  current_test :: int
  tests :: "test_info list"

text \<open>
  \<^verbatim>\<open>test_list::instance()\<close> returns a function-local static object: its vector starts
  empty and its \<^verbatim>\<open>int\<close> member is zero-initialised.
\<close>

definition instance_init :: test_list where
  "instance_init = \<lparr>current_test = 0, tests = []\<rparr>"

text \<open>\<^verbatim>\<open>add_test\<close>: one \<^verbatim>\<open>test_info\<close> per listed size, each with an empty ledger.\<close>

definition add_test :: "test_ptr \<Rightarrow> int list \<Rightarrow> string \<Rightarrow> test_list \<Rightarrow> test_list" where
  "add_test test test_sizes name list =
     list\<lparr>tests := tests list @
        map (\<lambda>sz. \<lparr>fptr = test, test_size = sz, test_name = name, fails = []\<rparr>) test_sizes\<rparr>"

text \<open>
  \<^verbatim>\<open>register_error\<close> is the single statement
  \<^verbatim>\<open>list->tests[list->current_test].fails.push_back({assertion, reason})\<close>.
  \<^verbatim>\<open>std::vector::operator[]\<close> is not bounds-checked, so an index outside the vector is
  undefined behaviour: the model returns \<open>None\<close> there.
\<close>

definition register_error :: "assert_info \<Rightarrow> string \<Rightarrow> test_list \<Rightarrow> test_list option" where
  "register_error a r list =
     (let ct = current_test list in
      if 0 \<le> ct \<and> ct < int (length (tests list)) then
        (let t = tests list ! nat ct in
         Some (list\<lparr>tests := (tests list)
                 [nat ct := t\<lparr>fails := fails t @ [\<lparr>assertion = a, reason = r\<rparr>]\<rparr>]\<rparr>))
      else None)"

section \<open>The comparison library (mpitest.h)\<close>


definition assert_eq ::
  "('a \<Rightarrow> 'a \<Rightarrow> bool) \<Rightarrow> ('a \<Rightarrow> string) \<Rightarrow> 'a \<Rightarrow> 'a \<Rightarrow> assert_info \<Rightarrow> test_list
     \<Rightarrow> (bool \<times> test_list) option" where
  "assert_eq eq put x y a list =
     (if eq x y then Some (True, list)
      else map_option (Pair False)
             (register_error a (put x @ '' does not equal '' @ put y) list))"

subsection \<open>Stream output of integers\<close>

text \<open>
  \<^verbatim>\<open>operator<<\<close> on an unsigned integer and on an \<^verbatim>\<open>int\<close>, and \<^verbatim>\<open>%d\<close> of
  \<^verbatim>\<open>printf\<close>, write the decimal digits, with a leading minus sign for a negative value.
\<close>

fun put_nat :: "nat \<Rightarrow> string" where
  "put_nat n =
     (if n < 10 then [''0123456789'' ! n]
      else put_nat (n div 10) @ [''0123456789'' ! (n mod 10)])"

declare put_nat.simps [simp del]

definition put_int :: "int \<Rightarrow> string" where
  "put_int i = (if i < 0 then CHR ''-'' # put_nat (nat (- i)) else put_nat (nat i))"

subsection \<open>IEEE-754 binary formats\<close>

text \<open>
  \<^verbatim>\<open>assert_ieee754_eq<fxx, uxx>\<close> reads the bit pattern of its operands through
  \<^verbatim>\<open>reinterpret_cast<uxx*>\<close>, so a floating-point value is modelled by its bit pattern,
  a word of the width of \<^verbatim>\<open>uxx\<close>. The format has one sign bit (the most significant),
  an exponent field and \<open>p\<close> fraction bits: \<open>p = 23\<close> in a 32-bit word is \<^verbatim>\<open>float\<close>,
  \<open>p = 52\<close> in a 64-bit word is \<^verbatim>\<open>double\<close>. The functions of \<^verbatim>\<open><cmath>\<close> and the
  operators of the hardware that the source calls are defined on the fields.
\<close>

definition signbit :: "'a::len word \<Rightarrow> bool" where
  "signbit x = (2 ^ (LENGTH('a) - 1) \<le> unat x)"

definition magnitude :: "'a::len word \<Rightarrow> nat" where
  "magnitude x = unat x mod 2 ^ (LENGTH('a) - 1)"

definition fabs :: "'a::len word \<Rightarrow> 'a word" where
  "fabs x = word_of_int (int (magnitude x))"

definition expo :: "nat \<Rightarrow> 'a::len word \<Rightarrow> nat" where
  "expo p x = magnitude x div 2 ^ p"

definition frac :: "nat \<Rightarrow> 'a::len word \<Rightarrow> nat" where
  "frac p x = magnitude x mod 2 ^ p"

text \<open>The largest value of the exponent field, which marks infinities and NaNs.\<close>

definition emax :: "nat \<Rightarrow> 'a::len word \<Rightarrow> nat" where
  "emax p x = 2 ^ (LENGTH('a) - 1 - p) - 1"

definition isnan :: "nat \<Rightarrow> 'a::len word \<Rightarrow> bool" where
  "isnan p x = (expo p x = emax p x \<and> frac p x \<noteq> 0)"

definition isinf :: "nat \<Rightarrow> 'a::len word \<Rightarrow> bool" where
  "isinf p x = (expo p x = emax p x \<and> frac p x = 0)"

text \<open>
  The magnitude of a value in units of the smallest subnormal: \<open>frac\<close> for a subnormal,
  \<open>(2 ^ p + frac) * 2 ^ (expo - 1)\<close> for a normal number. The same formula places an
  infinity at \<open>2 ^ (p + emax - 1)\<close>, above every finite magnitude, so that \<open>sval\<close>
  orders all values that are not NaN as the hardware comparison does (both zeros are 0).
\<close>

definition scaled :: "nat \<Rightarrow> 'a::len word \<Rightarrow> nat" where
  "scaled p x =
     (if expo p x = 0 then frac p x else (2 ^ p + frac p x) * 2 ^ (expo p x - 1))"

definition sval :: "nat \<Rightarrow> 'a::len word \<Rightarrow> int" where
  "sval p x = (if signbit x then - int (scaled p x) else int (scaled p x))"

text \<open>\<^verbatim>\<open><\<close> and \<^verbatim>\<open>>\<close> on floating-point values: false as soon as an operand is NaN.\<close>

definition flt :: "nat \<Rightarrow> 'a::len word \<Rightarrow> 'a word \<Rightarrow> bool" where
  "flt p x y = (\<not> isnan p x \<and> \<not> isnan p y \<and> sval p x < sval p y)"

definition fgt :: "nat \<Rightarrow> 'a::len word \<Rightarrow> 'a word \<Rightarrow> bool" where
  "fgt p x y = flt p y x"

text \<open>\<^verbatim>\<open>==\<close> on floating-point values: a NaN equals nothing, the two zeros are equal.\<close>

definition feq :: "nat \<Rightarrow> 'a::len word \<Rightarrow> 'a word \<Rightarrow> bool" where
  "feq p x y = (\<not> isnan p x \<and> \<not> isnan p y \<and> sval p x = sval p y)"

text \<open>
  Rounding to nearest, ties to even (the default rounding mode), of a magnitude \<open>m\<close>
  given in units of the smallest subnormal. With \<open>k\<close> the number of bits of \<open>m\<close>
  beyond the \<open>p + 1\<close> significant ones, \<open>m = q * 2 ^ k + r\<close>; the quotient is rounded
  up when the remainder is above half, or is half and \<open>q\<close> is odd. The bit pattern of
  the result is \<open>k * 2 ^ p + q\<close> (a carry out of the significand moves into the
  exponent field by itself), and a result at or above the pattern of infinity is
  infinity.
\<close>

fun bitlen :: "nat \<Rightarrow> nat" where
  "bitlen n = (if n = 0 then 0 else Suc (bitlen (n div 2)))"

declare bitlen.simps [simp del]

definition fround :: "nat \<Rightarrow> 'a::len word \<Rightarrow> nat \<Rightarrow> nat" where
  "fround p x m =
     (let k = bitlen m - (p + 1);
          q = m div 2 ^ k;
          r = m mod 2 ^ k;
          q' = (if 2 ^ k < 2 * r \<or> (2 * r = 2 ^ k \<and> odd q) then q + 1 else q)
      in min (k * 2 ^ p + q') (emax p x * 2 ^ p))"

definition with_sign :: "bool \<Rightarrow> nat \<Rightarrow> 'a::len word" where
  "with_sign s m = word_of_int (int (if s then 2 ^ (LENGTH('a) - 1) + m else m))"

definition qnan :: "nat \<Rightarrow> 'a::len word" where
  "qnan p = word_of_int (int (2 ^ (LENGTH('a) - 1) - 2 ^ (p - 1)))"

text \<open>
  \<^verbatim>\<open>a - b\<close>. The source subtracts only after both operands have been found finite; the
  other cases are those of the standard. An exact zero difference is \<open>+0\<close>, except
  \<open>(-0) - (+0) = -0\<close>.
\<close>

definition fsub :: "nat \<Rightarrow> 'a::len word \<Rightarrow> 'a word \<Rightarrow> 'a word" where
  "fsub p a b =
     (if isnan p a \<or> isnan p b then qnan p
      else if isinf p a then (if isinf p b \<and> signbit a = signbit b then qnan p else a)
      else if isinf p b then with_sign (\<not> signbit b) (magnitude b)
      else
        (let d = sval p a - sval p b in
         if d = 0 then with_sign (signbit a \<and> \<not> signbit b) 0
         else with_sign (d < 0) (fround p a (nat \<bar>d\<bar>))))"

text \<open>\<^verbatim>\<open>std::numeric_limits<fxx>::epsilon()\<close>, the default absolute tolerance: \<open>2 ^ - p\<close>.\<close>

definition epsilon :: "nat \<Rightarrow> 'a::len word" where
  "epsilon p = word_of_int (int ((emax p (0 :: 'a word) div 2 - p) * 2 ^ p))"

subsection \<open>The tolerance predicate\<close>

text \<open>
  \<^verbatim>\<open>ulp_tol\<close> is an \<^verbatim>\<open>int\<close> (32 bits, read by \<open>sint\<close>). In \<^verbatim>\<open>au - bu > ulp_tol\<close> the
  left operand has the unsigned type \<^verbatim>\<open>uxx\<close> (\<^verbatim>\<open>uint32_t\<close> or \<^verbatim>\<open>uint64_t\<close>), so the
  usual arithmetic conversions convert \<^verbatim>\<open>ulp_tol\<close> to \<^verbatim>\<open>uxx\<close> before comparing:
  \<open>ulp_conv\<close>. The stream output of an \<^verbatim>\<open>fxx\<close> at the precision the source sets is the
  parameter \<open>put\<close>.
\<close>

definition ulp_conv :: "32 word \<Rightarrow> 'a::len word" where
  "ulp_conv ulp_tol = word_of_int (sint ulp_tol)"

definition quick_reason :: "nat \<Rightarrow> 'a::len word \<Rightarrow> 'a word \<Rightarrow> string" where
  "quick_reason p a b =
     (if isnan p a then ''the first argument is nan! ''
      else if isinf p a then ''the first argument is inf! '' else []) @
     (if isnan p b then ''the second argument is nan! ''
      else if isinf p b then ''the second argument is inf! '' else [])"

definition abs_reason :: "('a::len word \<Rightarrow> string) \<Rightarrow> 'a word \<Rightarrow> 'a word \<Rightarrow> 'a word \<Rightarrow> 'a word \<Rightarrow> string" where
  "abs_reason put a b diff abs_tol =
     ''absolute difference between '' @ put a @ '' and '' @ put b @ '' ('' @ put diff @ '')'' @
     '' is outside the requested tolerance '' @ put abs_tol"

definition ulp_reason :: "('a::len word \<Rightarrow> string) \<Rightarrow> 'a word \<Rightarrow> 'a word \<Rightarrow> 'a word \<Rightarrow> 32 word \<Rightarrow> string" where
  "ulp_reason put a b dist ulp_tol =
     put a @ '' and '' @ put b @ '' differ by '' @ put_nat (unat dist) @
     '' ULPs, the requested tolerance is '' @ put_int (sint ulp_tol) @ '' ULPs''"

definition assert_ieee754_eq ::
  "nat \<Rightarrow> ('a::len word \<Rightarrow> string) \<Rightarrow> assert_info \<Rightarrow> 'a word \<Rightarrow> 'a word \<Rightarrow> 32 word \<Rightarrow> 'a word
     \<Rightarrow> test_list \<Rightarrow> (bool \<times> test_list) option" where
  "assert_ieee754_eq p put info a b ulp_tol abs_tol list =
     (if isnan p a \<or> isinf p a \<or> isnan p b \<or> isinf p b then
        map_option (Pair False) (register_error info (quick_reason p a b) list)
      else if signbit a \<noteq> signbit b \<or> (flt p (fabs a) abs_tol \<and> flt p (fabs b) abs_tol) then
        (let diff = fabs (fsub p a b) in
         if fgt p diff abs_tol then
           map_option (Pair False)
             (register_error info (abs_reason put a b diff abs_tol) list)
         else Some (True, list))
      else if b < a then
        (if ulp_conv ulp_tol < a - b then
           map_option (Pair False)
             (register_error info (ulp_reason put a b (a - b) ulp_tol) list)
         else Some (True, list))
      else if a < b then
        (if ulp_conv ulp_tol < b - a then
           map_option (Pair False)
             (register_error info (ulp_reason put a b (b - a) ulp_tol) list)
         else Some (True, list))
      else Some (True, list))"

text \<open>The two instances the assertion macros make.\<close>

definition assert_float_eq ::
  "(32 word \<Rightarrow> string) \<Rightarrow> assert_info \<Rightarrow> 32 word \<Rightarrow> 32 word \<Rightarrow> 32 word \<Rightarrow> 32 word
     \<Rightarrow> test_list \<Rightarrow> (bool \<times> test_list) option" where
  "assert_float_eq = assert_ieee754_eq 23"

definition assert_double_eq ::
  "(64 word \<Rightarrow> string) \<Rightarrow> assert_info \<Rightarrow> 64 word \<Rightarrow> 64 word \<Rightarrow> 32 word \<Rightarrow> 64 word
     \<Rightarrow> test_list \<Rightarrow> (bool \<times> test_list) option" where
  "assert_double_eq = assert_ieee754_eq 52"

section \<open>Observations on the registry\<close>

text \<open>
  The notions the statements below are written in. A registered case is current when
  \<open>current_test\<close> indexes the vector of tests. The ledgers of a registry are the
  \<open>fails\<close> vectors of its tests, in order; its registration data is the rest.
  \<open>appended_one rec list list'\<close>: from \<open>list\<close> to \<open>list'\<close> the ledger of the
  current case has grown by the record \<open>rec\<close> at its end, and nothing else has changed.
\<close>

definition active :: "test_list \<Rightarrow> bool" where
  "active list = (0 \<le> current_test list \<and> current_test list < int (length (tests list)))"

definition ledgers :: "test_list \<Rightarrow> fail_info list list" where
  "ledgers list = map fails (tests list)"

definition registration :: "test_list \<Rightarrow> test_info list" where
  "registration list = map (\<lambda>t. t\<lparr>fails := []\<rparr>) (tests list)"

definition appended_one :: "fail_info \<Rightarrow> test_list \<Rightarrow> test_list \<Rightarrow> bool" where
  "appended_one rec list list' =
     (current_test list' = current_test list \<and>
      registration list' = registration list \<and>
      ledgers list' =
        (ledgers list)[nat (current_test list) :=
           ledgers list ! nat (current_test list) @ [rec]])"


text \<open>Inputs at which the statements below are evaluated.\<close>

definition sample_info :: assert_info where
  "sample_info =
     \<lparr>line = 99, file_name = ''dummy_tests.cpp'', test_string = ''ASSERT_EQ(2, 1 + 1)''\<rparr>"

definition sample_registry :: test_list where
  "sample_registry = add_test (\<lambda>_ _. []) [1] ''serial_add'' instance_init"

section \<open>The test driver (main of mpitest.cpp)\<close>

text \<open>
  Every process runs the same \<^verbatim>\<open>main\<close>, sequentially. A process is modelled by the
  trace of the calls it makes, in program order: its prints, its calls into the
  message-passing library, the invocation of an entry point and the release of its
  buffers. What a call receives from other processes is written into the event.
\<close>

datatype event =
    Printf string
  | Barrier
  | Finalize
  | Comm_split int int
  | Comm_free
  | Entry nat
  | Gather int
  | Snprintf nat string
  | Issend nat string int int
  | Recv int int string
  | Waitall nat
  | Delete_requests
  | Delete_statuses
  | Delete_send_buff
  | Delete_counts

text \<open>
  \<open>Barrier\<close> is \<^verbatim>\<open>MPI_Barrier(MPI_COMM_WORLD)\<close>; \<open>Comm_split color key\<close> and
  \<open>Comm_free\<close> make and free the communicator of a test; \<open>Entry ti\<close> is the call
  \<^verbatim>\<open>this_test.fptr(test_comm)\<close> of test \<open>ti\<close>; \<open>Gather n\<close> is \<^verbatim>\<open>MPI_Gather\<close> to root
  0 with the contribution \<open>n\<close>; \<open>Snprintf fi text\<close> writes \<open>text\<close> into slot \<open>fi\<close>
  of the send buffer; \<open>Issend fi text dest tag\<close> is the non-blocking synchronous send
  of slot \<open>fi\<close>, which holds \<open>text\<close>, with request \<open>fi\<close>; \<open>Recv source tag text\<close>
  is the blocking receive that returned \<open>text\<close>; \<open>Waitall n\<close> waits for the requests
  \<open>0..<n\<close>; the \<open>Delete\<close> events are the \<^verbatim>\<open>delete[]\<close> statements.

  The view a process has of the other processes during one test: the counts that
  \<^verbatim>\<open>MPI_Gather\<close> delivers to the root, by rank, and the message that matches a
  receive from a given source with a given tag (\<open>None\<close> when no such message is ever
  sent, so that the receive never returns).
\<close>

record net =
  gathered :: "int \<Rightarrow> int"
  deliver :: "int \<Rightarrow> int \<Rightarrow> string option"

text \<open>A \<^verbatim>\<open>%s\<close> argument is read up to its first NUL character.\<close>

definition cstr :: "string \<Rightarrow> string" where
  "cstr s = takeWhile (\<lambda>c. c \<noteq> CHR 0x00) s"

definition newline :: string where
  "newline = [CHR 0x0A]"

text \<open>
  \<^verbatim>\<open>FAIL_MESSAGE_SIZE\<close> is 1024: \<^verbatim>\<open>snprintf\<close> keeps at most 1023 characters of the
  formatted text.
\<close>

definition FAIL_MESSAGE_SIZE :: nat where
  "FAIL_MESSAGE_SIZE = 1024"

definition fail_message :: "int \<Rightarrow> fail_info \<Rightarrow> string" where
  "fail_message rank f =
     take (FAIL_MESSAGE_SIZE - 1)
       (''  '' @ cstr (test_string (assertion f)) @ '' FAILED (on proc '' @ put_int rank @
        '' line '' @ put_int (line (assertion f)) @ '' of '' @
        cstr (file_name (assertion f)) @ '')'' @ newline @ ''    '' @ cstr (reason f))"

text \<open>
  The entry point registers its failure records one after the other through
  \<open>register_error\<close>.
\<close>

fun register_all :: "fail_info list \<Rightarrow> test_list \<Rightarrow> test_list option" where
  "register_all [] list = Some list"
| "register_all (f # fs) list =
     (case register_error (assertion f) (reason f) list of
        None \<Rightarrow> None
      | Some list' \<Rightarrow> register_all fs list')"

text \<open>
  The registry of a participant when the entry point of test \<open>ti\<close> has returned:
  \<^verbatim>\<open>list->current_test = ti\<close>, then the call of \<^verbatim>\<open>fptr\<close> on the communicator of the
  test, in which a participant keeps its rank and which has \<^verbatim>\<open>test_size\<close> members.
\<close>

definition after_entry :: "int \<Rightarrow> nat \<Rightarrow> test_list \<Rightarrow> test_list option" where
  "after_entry rank ti list =
     (let this_test = tests list ! ti in
      register_all (fptr this_test rank (test_size this_test))
        (list\<lparr>current_test := int ti\<rparr>))"

text \<open>The loop that formats and sends the failure records of \<open>this_test\<close>.\<close>

definition send_loop :: "int \<Rightarrow> test_info \<Rightarrow> event list" where
  "send_loop rank this_test =
     concat (map (\<lambda>fi. [Snprintf fi (fail_message rank (fails this_test ! fi)),
                         Issend fi (fail_message rank (fails this_test ! fi)) 0 (int fi)])
               [0..<length (fails this_test)])"

text \<open>
  The loops of the root that receive and print: for each rank \<open>ri\<close> of the test, in
  order, one blocking receive per count learned from the gather, with tags
  \<open>0, 1, ...\<close>; each message is printed when it has arrived. A receive that no message
  matches does not return.
\<close>

fun recv_from :: "(int \<Rightarrow> int \<Rightarrow> string option) \<Rightarrow> int \<Rightarrow> nat list \<Rightarrow> event list option" where
  "recv_from dl ri [] = Some []"
| "recv_from dl ri (fi # fis) =
     (case dl ri (int fi) of
        None \<Rightarrow> None
      | Some m \<Rightarrow>
          map_option (\<lambda>es. [Recv ri (int fi) m, Printf (cstr m @ newline)] @ es)
            (recv_from dl ri fis))"

fun recv_loop :: "net \<Rightarrow> nat list \<Rightarrow> event list option" where
  "recv_loop nt [] = Some []"
| "recv_loop nt (ri # ris) =
     (case recv_from (deliver nt) (int ri) [0..<nat (gathered nt (int ri))] of
        None \<Rightarrow> None
      | Some es \<Rightarrow> map_option (\<lambda>es'. es @ es') (recv_loop nt ris))"

text \<open>
  The source keeps the size of a ledger, the loop counter over it and the sum of the
  gathered counts in an \<^verbatim>\<open>int\<close>. A ledger of more than \<open>INT_MAX\<close> records makes the
  loop counter overflow, and a partial sum outside the range of \<^verbatim>\<open>int\<close> is a signed
  overflow: both are undefined behaviour. Inside the range the sum is the sum of
  integers.

  The send loop addresses slot \<open>fi\<close> of the send buffer at the offset
  \<^verbatim>\<open>FAIL_MESSAGE_SIZE * fi\<close>, a product of two \<^verbatim>\<open>int\<close>s: it overflows, again
  undefined behaviour, as soon as it exceeds \<open>INT_MAX\<close>, that is from
  \<open>fi = 2097152\<close> on. \<open>offsets_fit n\<close>: every offset of a loop over \<open>n\<close> records is
  in range.
\<close>

definition INT_MAX :: int where
  "INT_MAX = 2147483647"

definition offsets_fit :: "nat \<Rightarrow> bool" where
  "offsets_fit n = list_all (\<lambda>fi. int FAIL_MESSAGE_SIZE * int fi \<le> INT_MAX) [0..<n]"

fun sums_fit :: "int \<Rightarrow> int list \<Rightarrow> bool" where
  "sums_fit acc [] = True"
| "sums_fit acc (c # cs) =
     (- INT_MAX - 1 \<le> acc + c \<and> acc + c \<le> INT_MAX \<and> sums_fit (acc + c) cs)"

definition num_fails_total :: "net \<Rightarrow> int \<Rightarrow> int" where
  "num_fails_total nt sz = (\<Sum>ri\<leftarrow>[0..<nat sz]. gathered nt (int ri))"

definition running_line :: "test_info \<Rightarrow> string" where
  "running_line this_test =
     ''[ RUNNING ] '' @ cstr (test_name this_test) @ '' ('' @ put_int (test_size this_test) @
     '' proc'' @ (if 1 < test_size this_test then ''s'' else []) @ '')'' @ newline"

definition success_line :: "test_info \<Rightarrow> string" where
  "success_line this_test = ''[ SUCCESS ] '' @ cstr (test_name this_test) @ newline"

definition fail_line :: "test_info \<Rightarrow> string" where
  "fail_line this_test = ''[ FAIL    ] '' @ cstr (test_name this_test) @ newline"

text \<open>
  One iteration of the loop over the tests, on the process of rank \<open>rank\<close>. \<open>None\<close>
  is undefined behaviour or a receive that never returns.
\<close>

definition run_test :: "int \<Rightarrow> nat \<Rightarrow> net \<Rightarrow> test_list \<Rightarrow> (event list \<times> test_list) option" where
  "run_test rank ti nt list0 =
     (let sz = test_size (tests list0 ! ti);
          color = (if rank < sz then 1 else 0)
      in if rank < sz then
           (case after_entry rank ti list0 of
              None \<Rightarrow> None
            | Some list \<Rightarrow>
                (let this_test = tests list ! ti;
                     n = length (fails this_test);
                     total = (if rank = 0 then num_fails_total nt sz else 0)
                 in if INT_MAX < int n \<or> \<not> offsets_fit n \<or>
                       (rank = 0 \<and>
                        \<not> sums_fit 0 (map (\<lambda>ri. gathered nt (int ri)) [0..<nat sz]))
                    then None
                    else
                    case (if rank = 0 then recv_loop nt [0..<nat sz] else Some []) of
                      None \<Rightarrow> None
                    | Some receives \<Rightarrow>
                        Some ([Comm_split color rank] @
                              (if rank = 0 then [Printf (running_line this_test)] else []) @
                              [Entry ti, Gather (int n)] @
                              (if rank = 0 \<and> total = 0
                               then [Printf (success_line this_test)] else []) @
                              send_loop rank this_test @
                              receives @
                              [Waitall n, Delete_requests, Delete_statuses, Delete_send_buff] @
                              (if rank = 0 then [Delete_counts] else []) @
                              (if rank = 0 \<and> total \<noteq> 0
                               then [Printf (fail_line this_test)] else []) @
                              [Barrier, Comm_free],
                              list)))
         else Some ([Comm_split color rank, Barrier, Comm_free],
                    list0\<lparr>current_test := int ti\<rparr>))"

fun run_tests :: "int \<Rightarrow> (nat \<Rightarrow> net) \<Rightarrow> nat list \<Rightarrow> test_list \<Rightarrow> (event list \<times> test_list) option" where
  "run_tests rank nets [] list = Some ([], list)"
| "run_tests rank nets (ti # tis) list =
     (case run_test rank ti (nets ti) list of
        None \<Rightarrow> None
      | Some (es, list') \<Rightarrow>
          map_option (\<lambda>(es', list''). (es @ es', list'')) (run_tests rank nets tis list'))"

text \<open>The search for the largest test, starting from 0.\<close>

definition largest_test_size :: "test_info list \<Rightarrow> int" where
  "largest_test_size ts = foldl (\<lambda>m t. if m < test_size t then test_size t else m) 0 ts"

definition please_line :: "int \<Rightarrow> string" where
  "please_line n = ''please launch with at least '' @ put_int n @ '' procs!'' @ newline"

text \<open>
  \<^verbatim>\<open>main\<close> on the process of rank \<open>rank\<close> among \<open>size'\<close>: the trace and the exit
  status. \<open>nets ti\<close> is the view the process has during test \<open>ti\<close>.
\<close>

definition main_proc :: "int \<Rightarrow> int \<Rightarrow> (nat \<Rightarrow> net) \<Rightarrow> test_list \<Rightarrow> (event list \<times> int) option" where
  "main_proc rank size' nets list =
     (let start = (if rank = 0 then [Printf (newline @ newline)] else []) @ [Barrier];
          largest = largest_test_size (tests list)
      in if size' < largest then
           Some (start @ (if rank = 0 then [Printf (please_line largest)] else []) @ [Finalize], 0)
         else
           map_option (\<lambda>(es, list'). (start @ [Barrier] @ es @ [Finalize], 0))
             (run_tests rank nets [0..<length (tests list)] list))"

subsection \<open>All processes together\<close>

text \<open>
  The first message of a trace sent to \<open>dest\<close> with tag \<open>tag\<close>: the one a receive
  for that tag matches.
\<close>

fun find_send :: "int \<Rightarrow> int \<Rightarrow> event list \<Rightarrow> string option" where
  "find_send dest tag [] = None"
| "find_send dest tag (Issend fi m d t # es) =
     (if d = dest \<and> t = tag then Some m else find_send dest tag es)"
| "find_send dest tag (e # es) = find_send dest tag es"

text \<open>
  \<open>regs r\<close> is the registry of the process of rank \<open>r\<close> when iteration \<open>ti\<close> starts.
  The ledger of a participant is the \<open>fails\<close> vector of the test when its entry point
  has returned. The view of the root is made of what the participants do: the count
  each one contributes to the gather, and the messages each one sends in its
  \<open>send_loop\<close>. A process that is not in the communicator of the test sends nothing.
\<close>

definition ledger :: "(int \<Rightarrow> test_list) \<Rightarrow> nat \<Rightarrow> int \<Rightarrow> fail_info list" where
  "ledger regs ti r =
     (case after_entry r ti (regs r) of None \<Rightarrow> [] | Some list \<Rightarrow> fails (tests list ! ti))"

definition world_net :: "(int \<Rightarrow> test_list) \<Rightarrow> nat \<Rightarrow> net" where
  "world_net regs ti =
     \<lparr>gathered = (\<lambda>ri. int (length (ledger regs ti ri))),
      deliver = (\<lambda>source tag.
         if 0 \<le> source \<and> source < test_size (tests (regs source) ! ti) then
           (case after_entry source ti (regs source) of
              None \<Rightarrow> None
            | Some list \<Rightarrow> find_send 0 tag (send_loop source (tests list ! ti)))
         else None)\<rparr>"

definition world_run_test :: "(int \<Rightarrow> test_list) \<Rightarrow> nat \<Rightarrow> int \<Rightarrow> (event list \<times> test_list) option" where
  "world_run_test regs ti r = run_test r ti (world_net regs ti) (regs r)"

text \<open>
  The processes agree on the registration data and test \<open>ti\<close> is registered: what
  dynamic initialisation establishes on every process. The ledgers of the
  participants fit when the slot offsets of each of them are in range (at most
  2097152 records) and their sizes sum to at most \<open>INT_MAX\<close>.
\<close>

definition agree :: "(int \<Rightarrow> test_list) \<Rightarrow> nat \<Rightarrow> bool" where
  "agree regs ti =
     (\<forall>r. ti < length (tests (regs r)) \<and>
          test_size (tests (regs r) ! ti) = test_size (tests (regs 0) ! ti) \<and>
          test_name (tests (regs r) ! ti) = test_name (tests (regs 0) ! ti))"

definition fits :: "(int \<Rightarrow> test_list) \<Rightarrow> nat \<Rightarrow> bool" where
  "fits regs ti =
     (list_all (\<lambda>ri. offsets_fit (length (ledger regs ti (int ri))))
        [0..<nat (test_size (tests (regs 0) ! ti))] \<and>
      int (\<Sum>ri\<leftarrow>[0..<nat (test_size (tests (regs 0) ! ti))]. length (ledger regs ti (int ri)))
        \<le> INT_MAX)"

subsection \<open>Observations on traces\<close>

definition prints :: "event list \<Rightarrow> string list" where
  "prints es = concat (map (\<lambda>e. case e of Printf s \<Rightarrow> [s] | _ \<Rightarrow> []) es)"

definition is_print :: "event \<Rightarrow> bool" where
  "is_print e = (case e of Printf s \<Rightarrow> True | _ \<Rightarrow> False)"

definition is_entry :: "event \<Rightarrow> bool" where
  "is_entry e = (case e of Entry ti \<Rightarrow> True | _ \<Rightarrow> False)"

definition is_gather :: "event \<Rightarrow> bool" where
  "is_gather e = (case e of Gather n \<Rightarrow> True | _ \<Rightarrow> False)"

definition is_issend :: "event \<Rightarrow> bool" where
  "is_issend e = (case e of Issend fi m d t \<Rightarrow> True | _ \<Rightarrow> False)"

definition is_recv :: "event \<Rightarrow> bool" where
  "is_recv e = (case e of Recv s t m \<Rightarrow> True | _ \<Rightarrow> False)"

text \<open>
  The messages a trace sends, as (destination, tag, text), and the messages it
  receives, as (source, tag, text), in program order.
\<close>

definition sent :: "event list \<Rightarrow> (int \<times> int \<times> string) list" where
  "sent es = concat (map (\<lambda>e. case e of Issend fi m d t \<Rightarrow> [(d, t, m)] | _ \<Rightarrow> []) es)"

definition received :: "event list \<Rightarrow> (int \<times> int \<times> string) list" where
  "received es = concat (map (\<lambda>e. case e of Recv s t m \<Rightarrow> [(s, t, m)] | _ \<Rightarrow> []) es)"

text \<open>
  In a trace the count exchange comes first: there is a gather, and no send or
  receive before the first one.
\<close>

definition gather_first :: "event list \<Rightarrow> bool" where
  "gather_first es =
     (list_ex is_gather es \<and>
      list_all (\<lambda>e. \<not> is_issend e \<and> \<not> is_recv e) (takeWhile (\<lambda>e. \<not> is_gather e) es))"

text \<open>
  The discipline of the send buffer, as a monitor over a trace. The state is the set
  of slots with a send in flight; \<open>None\<close> is a violation. A slot in flight is neither
  written nor sent again; \<open>Waitall n\<close> completes the requests \<open>0..<n\<close>; the buffer is
  released, and the barrier that ends the test is entered, with nothing in flight.
\<close>

fun buffer_step :: "nat set \<Rightarrow> event \<Rightarrow> nat set option" where
  "buffer_step fl (Snprintf fi m) = (if fi \<in> fl then None else Some fl)"
| "buffer_step fl (Issend fi m d t) = (if fi \<in> fl then None else Some (insert fi fl))"
| "buffer_step fl (Waitall n) = Some {fi \<in> fl. \<not> fi < n}"
| "buffer_step fl Delete_send_buff = (if fl = {} then Some fl else None)"
| "buffer_step fl Barrier = (if fl = {} then Some fl else None)"
| "buffer_step fl e = Some fl"

fun buffer_run :: "nat set \<Rightarrow> event list \<Rightarrow> nat set option" where
  "buffer_run fl [] = Some fl"
| "buffer_run fl (e # es) =
     (case buffer_step fl e of None \<Rightarrow> None | Some fl' \<Rightarrow> buffer_run fl' es)"

subsection \<open>Sample runs\<close>

text \<open>
  A test on three processes whose entry point records one failure on rank 0, none on
  rank 1 and two on rank 2; the test registry on every process; a registry with the
  tests of two and of four processes of \<^verbatim>\<open>dummy_tests.cpp\<close>; a view in which no
  message ever arrives.
\<close>

definition sample_fail :: "int \<Rightarrow> string \<Rightarrow> fail_info" where
  "sample_fail ln msg =
     \<lparr>assertion = \<lparr>line = ln, file_name = ''dummy_tests.cpp'', test_string = ''EXPECT_EQ(a, b)''\<rparr>,
      reason = msg\<rparr>"

definition sample_body :: test_ptr where
  "sample_body rank sz =
     (if rank = 0 then [sample_fail 31 ''3 does not equal 4'']
      else if rank = 2 then [sample_fail 61 ''1 does not equal 2'', sample_fail 62 ''0 does not equal 1'']
      else [])"

definition sample_world :: "int \<Rightarrow> test_list" where
  "sample_world r = add_test sample_body [3] ''sample_test'' instance_init"

definition quiet_world :: "int \<Rightarrow> test_list" where
  "quiet_world r = sample_registry"

definition dummy_registry :: test_list where
  "dummy_registry =
     add_test (\<lambda>_ _. []) [4] ''sub_test'' (add_test (\<lambda>_ _. []) [2] ''add_test'' instance_init)"

definition silent_net :: net where
  "silent_net = \<lparr>gathered = (\<lambda>_. 0), deliver = (\<lambda>_ _. None)\<rparr>"
section \<open>Properties of the registry and the comparison library\<close>

subsection \<open>Recording a failure\<close>

lemma map_update_same: "i < length xs \<Longrightarrow> f y = f (xs ! i) \<Longrightarrow> map f (xs[i := y]) = map f xs"
  by (simp add: map_update list_update_same_conv)

lemma register_error_active:
  assumes "active list"
  shows "\<exists>list'. register_error a r list = Some list' \<and>
           appended_one \<lparr>assertion = a, reason = r\<rparr> list list'"
proof -
  let ?c = "nat (current_test list)"
  from assms have c: "?c < length (tests list)" and nn: "0 \<le> current_test list"
    by (auto simp: active_def)
  let ?t = "tests list ! ?c"
  let ?list' = "list\<lparr>tests := (tests list)[?c := ?t\<lparr>fails := fails ?t @ [\<lparr>assertion = a, reason = r\<rparr>]\<rparr>]\<rparr>"
  have "register_error a r list = Some ?list'"
    using assms by (simp add: register_error_def active_def Let_def)
  moreover have "registration ?list' = registration list"
    using c by (simp add: registration_def map_update_same)
  moreover have "ledgers ?list' = (ledgers list)[?c := ledgers list ! ?c @ [\<lparr>assertion = a, reason = r\<rparr>]]"
    using c by (simp add: ledgers_def map_update)
  ultimately show ?thesis by (simp add: appended_one_def)
qed




lemma sample_active: "active sample_registry"
  by (simp add: active_def sample_registry_def add_test_def instance_init_def)

lemmas ieee_fields = isnan_def isinf_def expo_def frac_def emax_def magnitude_def signbit_def

subsection \<open>The ledger effect of the predicates\<close>





subsection \<open>Exact equality\<close>

text \<open>
  Claim C7, as amended. \<open>assert_eq\<close> decides by the \<^verbatim>\<open>operator==\<close> of the type:
  while a registered case is current, \<open>assert_eq(x, y)\<close> returns true when
  \<open>x == y\<close> holds, and otherwise returns false and records the message
  \<open>x does not equal y\<close>, which contains both values. Where \<^verbatim>\<open>operator==\<close> is the
  identity of values (the integer types), \<open>assert_eq(x, x)\<close> returns true for every
  \<open>x\<close>. For a floating-point \<open>x\<close>, \<open>assert_eq(x, x)\<close> returns true when \<open>x\<close> is
  not a NaN, and returns false and records the message when \<open>x\<close> is a NaN.
\<close>

theorem assert_eq_by_operator:
  fixes w :: "'w::len word"
  assumes "active list"
  shows "(if eq x y then assert_eq eq put x y info list = Some (True, list)
          else \<exists>list'. assert_eq eq put x y info list = Some (False, list') \<and>
                 appended_one \<lparr>assertion = info, reason = put x @ '' does not equal '' @ put y\<rparr>
                   list list') \<and>
         assert_eq (=) put x x info list = Some (True, list) \<and>
         (if isnan p w
          then \<exists>list'. assert_eq (feq p) putw w w info list = Some (False, list') \<and>
                 appended_one \<lparr>assertion = info, reason = putw w @ '' does not equal '' @ putw w\<rparr>
                   list list'
          else assert_eq (feq p) putw w w info list = Some (True, list))"
  using register_error_active [OF assms, of info "put x @ '' does not equal '' @ put y"]
    register_error_active [OF assms, of info "putw w @ '' does not equal '' @ putw w"]
  by (auto simp: assert_eq_def feq_def)

text \<open>
  The statement at the integers of \<^verbatim>\<open>ASSERT_EQ(2, 1 + 1)\<close>, at two different integers,
  at the doubles of \<^verbatim>\<open>ASSERT_EQ(1337., 1337.)\<close> and at a NaN.
\<close>

theorem assert_eq_by_operator_witness:
  "active sample_registry \<and>
   assert_eq (=) put_int 2 (1 + 1) sample_info sample_registry = Some (True, sample_registry) \<and>
   (\<exists>list'. assert_eq (=) put_int 3 4 sample_info sample_registry = Some (False, list') \<and>
      appended_one \<lparr>assertion = sample_info, reason = ''3 does not equal 4''\<rparr>
        sample_registry list') \<and>
   assert_eq (feq 52) (\<lambda>_. ''1337'') (0x4094e40000000000 :: 64 word) 0x4094e40000000000
     sample_info sample_registry = Some (True, sample_registry) \<and>
   (\<exists>list'. assert_eq (feq 52) (\<lambda>_. ''nan'') (0x7ff8000000000000 :: 64 word) 0x7ff8000000000000
        sample_info sample_registry = Some (False, list') \<and>
      appended_one \<lparr>assertion = sample_info, reason = ''nan does not equal nan''\<rparr>
        sample_registry list')"
proof -
  have p: "put_int 3 = ''3''" "put_int 4 = ''4''"
    by (simp_all add: put_int_def put_nat.simps)
  have f: "\<not> isnan 52 (0x4094e40000000000 :: 64 word)" "isnan 52 (0x7ff8000000000000 :: 64 word)"
    by (simp_all add: ieee_fields)
  show ?thesis
    using assert_eq_by_operator [OF sample_active, of "(=)" 3 4 put_int sample_info 52
        "0x4094e40000000000 :: 64 word" "\<lambda>_. ''1337''"]
      assert_eq_by_operator [OF sample_active, of "(=)" 2 "1 + 1" put_int sample_info 52
        "0x7ff8000000000000 :: 64 word" "\<lambda>_. ''nan''"]
    by (simp add: sample_active p f)
qed

text \<open>
  Claim C7 as stated fails for \<^verbatim>\<open>double\<close>, a type the tests instantiate
  \<open>assert_eq\<close> with: a NaN does not equal itself, so \<open>assert_eq(x, x)\<close> returns
  false at \<open>x = NaN\<close>.
\<close>

theorem assert_eq_nan_counterexample:
  "map_option fst (assert_eq (feq 52) (\<lambda>_. ''nan'') (0x7ff8000000000000 :: 64 word)
     0x7ff8000000000000 sample_info sample_registry) = Some False"
  by (simp add: assert_eq_def feq_def ieee_fields register_error_def sample_registry_def
      add_test_def instance_init_def)

subsection \<open>Tolerance-based equality\<close>

lemma unat_of_small: "n < 2 ^ (LENGTH('a::len) - 1) \<Longrightarrow> unat (word_of_int (int n) :: 'a word) = n"
proof -
  assume n: "n < 2 ^ (LENGTH('a) - 1)"
  have "(2::nat) ^ (LENGTH('a) - 1) \<le> 2 ^ LENGTH('a)" by (rule power_increasing) simp_all
  with n have "n < 2 ^ LENGTH('a)" by linarith
  then show ?thesis by (simp add: unat_of_nat take_bit_nat_eq_self)
qed

lemma magnitude_less: "magnitude (x :: 'a::len word) < 2 ^ (LENGTH('a) - 1)"
  by (simp add: magnitude_def)

lemma unat_fabs: "unat (fabs x) = magnitude x"
  unfolding fabs_def by (rule unat_of_small) (rule magnitude_less)

lemma signbit_fabs: "\<not> signbit (fabs x)"
  using magnitude_less [of x] by (simp add: signbit_def unat_fabs)

lemma sval_fabs_nonneg: "0 \<le> sval p (fabs x)"
  by (simp add: sval_def signbit_fabs)

lemma fabs_zero: "fabs 0 = 0"
  by (simp add: fabs_def magnitude_def)

lemma sval_zero: "sval p 0 = 0"
  by (simp add: sval_def scaled_def expo_def frac_def magnitude_def signbit_def)

lemma fsub_self: "\<not> isnan p x \<Longrightarrow> \<not> isinf p x \<Longrightarrow> fsub p x x = 0"
  by (simp add: fsub_def with_sign_def)

lemma not_fgt_zero: "flt p (fabs x) tol \<Longrightarrow> \<not> fgt p 0 tol"
  using sval_fabs_nonneg [of p x] by (simp add: fgt_def flt_def sval_zero)

text \<open>
  Claim C10. For every finite \<open>x\<close> (neither NaN nor infinite), every \<open>ulp_tol\<close>
  and every \<open>abs_tol\<close> (so in particular the non-negative ones),
  \<open>assert_ieee754_eq(x, x, ulp_tol, abs_tol)\<close> returns true and leaves the registry
  unchanged.
\<close>

theorem ieee_reflexive:
  assumes "\<not> isnan p x" and "\<not> isinf p x"
  shows "assert_ieee754_eq p put info x x ulp_tol abs_tol list = Some (True, list)"
  using assms not_fgt_zero [of p x abs_tol]
  by (simp add: assert_ieee754_eq_def fsub_self fabs_zero)

text \<open>
  The statement at \<open>0.0\<close>, which takes the absolute comparison, and at \<open>1337.0\<close>,
  which takes the comparison of bit patterns.
\<close>

theorem ieee_reflexive_witness:
  "\<not> isnan 52 (0 :: 64 word) \<and> \<not> isinf 52 (0 :: 64 word) \<and>
   \<not> isnan 52 (0x4094e40000000000 :: 64 word) \<and> \<not> isinf 52 (0x4094e40000000000 :: 64 word) \<and>
   flt 52 (fabs (0 :: 64 word)) (epsilon 52) \<and>
   \<not> flt 52 (fabs (0x4094e40000000000 :: 64 word)) (epsilon 52) \<and>
   assert_double_eq (\<lambda>_. ''0'') sample_info 0 0 10 (epsilon 52) sample_registry =
     Some (True, sample_registry) \<and>
   assert_double_eq (\<lambda>_. ''1337'') sample_info 0x4094e40000000000 0x4094e40000000000 10
     (epsilon 52) sample_registry = Some (True, sample_registry)"
proof -
  have z: "\<not> isnan 52 (0 :: 64 word)" "\<not> isinf 52 (0 :: 64 word)"
    by (simp_all add: ieee_fields)
  have n: "\<not> isnan 52 (0x4094e40000000000 :: 64 word)" "\<not> isinf 52 (0x4094e40000000000 :: 64 word)"
    by (simp_all add: ieee_fields)
  have e: "(epsilon 52 :: 64 word) = 0x3cb0000000000000"
    by (simp add: epsilon_def emax_def)
  have a: "flt 52 (fabs (0 :: 64 word)) (epsilon 52)"
    unfolding e by (simp add: fabs_zero flt_def sval_def scaled_def ieee_fields)
  have b: "\<not> flt 52 (fabs (0x4094e40000000000 :: 64 word)) (epsilon 52)"
    unfolding e by (simp add: fabs_def flt_def sval_def scaled_def ieee_fields)
  show ?thesis
    using z n a b
      ieee_reflexive [OF z, of "\<lambda>_. ''0''" sample_info 10 "epsilon 52" sample_registry]
      ieee_reflexive [OF n, of "\<lambda>_. ''1337''" sample_info 10 "epsilon 52" sample_registry]
    by (simp add: assert_double_eq_def)
qed

text \<open>
  Claim C6. While a registered case is current, if an operand is NaN or infinite then
  \<open>assert_ieee754_eq\<close> returns false, whatever the tolerances are, and the message of
  the record it appends says for each such operand whether it is the first or the
  second argument and whether it is NaN or infinite.
\<close>

theorem nan_inf_quick_exit:
  assumes "active list" and "isnan p a \<or> isinf p a \<or> isnan p b \<or> isinf p b"
  shows "(\<exists>list'. assert_ieee754_eq p put info a b ulp_tol abs_tol list = Some (False, list') \<and>
           appended_one
             \<lparr>assertion = info,
              reason =
                (if isnan p a then ''the first argument is nan! ''
                 else if isinf p a then ''the first argument is inf! '' else []) @
                (if isnan p b then ''the second argument is nan! ''
                 else if isinf p b then ''the second argument is inf! '' else [])\<rparr>
             list list') \<and>
         assert_ieee754_eq p put info a b ulp_tol' abs_tol' list =
           assert_ieee754_eq p put info a b ulp_tol abs_tol list"
  using assms(2) register_error_active [OF assms(1), of info "quick_reason p a b"]
  by (auto simp: assert_ieee754_eq_def quick_reason_def)

text \<open>
  The statement at \<^verbatim>\<open>ASSERT_DOUBLE_EQ(1337., NAN, 10)\<close> and at a \<^verbatim>\<open>float\<close> minus
  infinity.
\<close>

theorem nan_inf_quick_exit_witness:
  "active sample_registry \<and> isnan 52 (0x7ff8000000000000 :: 64 word) \<and>
   isinf 23 (0xff800000 :: 32 word) \<and>
   (\<exists>list'. assert_double_eq (\<lambda>_. ''x'') sample_info 0x4094e40000000000 0x7ff8000000000000 10
        (epsilon 52) sample_registry = Some (False, list') \<and>
      appended_one \<lparr>assertion = sample_info, reason = ''the second argument is nan! ''\<rparr>
        sample_registry list') \<and>
   (\<exists>list'. assert_float_eq (\<lambda>_. ''x'') sample_info 0xff800000 0x44a72000 10
        (epsilon 23) sample_registry = Some (False, list') \<and>
      appended_one \<lparr>assertion = sample_info, reason = ''the first argument is inf! ''\<rparr>
        sample_registry list')"
proof -
  have n: "isnan 52 (0x7ff8000000000000 :: 64 word)" "\<not> isnan 52 (0x4094e40000000000 :: 64 word)"
    "\<not> isinf 52 (0x4094e40000000000 :: 64 word)"
    by (simp_all add: ieee_fields)
  have i: "isinf 23 (0xff800000 :: 32 word)" "\<not> isnan 23 (0xff800000 :: 32 word)"
    "\<not> isnan 23 (0x44a72000 :: 32 word)" "\<not> isinf 23 (0x44a72000 :: 32 word)"
    by (simp_all add: ieee_fields)
  show ?thesis
    using nan_inf_quick_exit [OF sample_active, of 52 "0x4094e40000000000 :: 64 word"
        "0x7ff8000000000000" "\<lambda>_. ''x''" sample_info 10 "epsilon 52"] 
      nan_inf_quick_exit [OF sample_active, of 23 "0xff800000 :: 32 word"
        "0x44a72000" "\<lambda>_. ''x''" sample_info 10 "epsilon 23"] n i
    by (simp add: sample_active assert_double_eq_def assert_float_eq_def)
qed

lemma uint_ulp_conv:
  assumes "0 \<le> sint ulp_tol" and "32 \<le> LENGTH('a::len)"
  shows "uint (ulp_conv ulp_tol :: 'a word) = sint ulp_tol"
proof -
  have "sint ulp_tol < 2 ^ (LENGTH(32) - 1)" by (rule sint_lt)
  then have "sint ulp_tol < 2 ^ 32" by simp
  also have "(2::int) ^ 32 \<le> 2 ^ LENGTH('a)" using assms(2) by (rule power_increasing) simp
  finally have "sint ulp_tol < 2 ^ LENGTH('a)" .
  with assms(1) have "take_bit LENGTH('a) (sint ulp_tol) = sint ulp_tol"
    by (simp add: take_bit_int_eq_self)
  moreover have "uint (word_of_int (sint ulp_tol) :: 'a word) = take_bit LENGTH('a) (sint ulp_tol)"
    by (simp only: uint_word_of_int_eq)
  ultimately show ?thesis by (simp only: ulp_conv_def)
qed

lemma ulp_exceeds:
  fixes a b :: "'a::len word"
  assumes "0 \<le> sint ulp_tol" and "32 \<le> LENGTH('a)" and "b < a"
  shows "ulp_conv ulp_tol < a - b \<longleftrightarrow> sint ulp_tol < \<bar>uint a - uint b\<bar>"
proof -
  from assms(3) have le: "uint b \<le> uint a" and lt: "uint b < uint a"
    by (simp_all add: word_less_def)
  then have "uint (a - b) = uint a - uint b" by (simp add: uint_sub_lem)
  with lt show ?thesis
    by (simp add: word_less_def uint_ulp_conv [OF assms(1,2)])
qed


lemma ulp_exceeds_sym:
  fixes a b :: "'a::len word"
  assumes "0 \<le> sint ulp_tol" and "32 \<le> LENGTH('a)" and "a < b"
  shows "ulp_conv ulp_tol < b - a \<longleftrightarrow> sint ulp_tol < \<bar>uint a - uint b\<bar>"
  using ulp_exceeds [OF assms] by (simp add: abs_minus_commute)

lemma failing_some:
  "active list \<Longrightarrow>
   \<exists>list'. map_option (Pair False) (register_error info msg list) = Some (False, list')"
  using register_error_active [of list info msg] by auto

lemma ieee_branches:
  fixes a b :: "'a::len word"
  assumes "active list" and "\<not> isnan p a" and "\<not> isinf p a" and "\<not> isnan p b" and "\<not> isinf p b"
    and "0 \<le> sint ulp_tol" and "32 \<le> LENGTH('a)"
  shows "\<exists>list'. assert_ieee754_eq p put info a b ulp_tol abs_tol list =
           Some (\<not> (if signbit a \<noteq> signbit b \<or> (flt p (fabs a) abs_tol \<and> flt p (fabs b) abs_tol)
                     then fgt p (fabs (fsub p a b)) abs_tol
                     else sint ulp_tol < \<bar>uint a - uint b\<bar>), list')"
proof -
  let ?res = "assert_ieee754_eq p put info a b ulp_tol abs_tol list"
  let ?C = "signbit a \<noteq> signbit b \<or> (flt p (fabs a) abs_tol \<and> flt p (fabs b) abs_tol)"
  note f = failing_some [OF assms(1), of info]
  have fin: "\<not> (isnan p a \<or> isinf p a \<or> isnan p b \<or> isinf p b)"
    using assms(2-5) by blast
  show ?thesis
  proof (cases ?C)
    case True
    have r: "?res = (if fgt p (fabs (fsub p a b)) abs_tol
                 then map_option (Pair False)
                   (register_error info (abs_reason put a b (fabs (fsub p a b)) abs_tol) list)
                 else Some (True, list))"
      unfolding assert_ieee754_eq_def Let_def by (simp only: fin True if_True if_False)
    show ?thesis
    proof (cases "fgt p (fabs (fsub p a b)) abs_tol")
      case t: True
      with r f [of "abs_reason put a b (fabs (fsub p a b)) abs_tol"] True show ?thesis
        by (simp only: if_True) simp
    next
      case f: False
      with r True show ?thesis by (simp only: if_True if_False) simp
    qed
  next
    case False
    have r: "?res = (if b < a then
        (if ulp_conv ulp_tol < a - b then
           map_option (Pair False)
             (register_error info (ulp_reason put a b (a - b) ulp_tol) list)
         else Some (True, list))
      else if a < b then
        (if ulp_conv ulp_tol < b - a then
           map_option (Pair False)
             (register_error info (ulp_reason put a b (b - a) ulp_tol) list)
         else Some (True, list))
      else Some (True, list))"
      unfolding assert_ieee754_eq_def Let_def by (simp only: fin False if_True if_False)
    note u = ulp_exceeds [OF assms(6,7)] ulp_exceeds_sym [OF assms(6,7)]
    consider (gt) "b < a" | (lt) "a < b" "\<not> b < a" | (eq) "a = b"
      by (meson not_less_iff_gr_or_eq)
    then show ?thesis
    proof cases
      case gt
      show ?thesis
      proof (cases "sint ulp_tol < \<bar>uint a - uint b\<bar>")
        case True
        with u(1) [OF gt] have "ulp_conv ulp_tol < a - b" by simp
        with r gt have "?res = map_option (Pair False)
             (register_error info (ulp_reason put a b (a - b) ulp_tol) list)"
          by (simp only: if_True)
        with f [of "ulp_reason put a b (a - b) ulp_tol"] True False show ?thesis
          by (simp only: if_False) simp
      next
        case nt: False
        with u(1) [OF gt] have "\<not> ulp_conv ulp_tol < a - b" by simp
        with r gt have "?res = Some (True, list)" by (simp only: if_True if_False)
        with nt False show ?thesis by (simp only: if_False) simp
      qed
    next
      case lt
      show ?thesis
      proof (cases "sint ulp_tol < \<bar>uint a - uint b\<bar>")
        case True
        with u(2) [OF lt(1)] have "ulp_conv ulp_tol < b - a" by simp
        with r lt have "?res = map_option (Pair False)
             (register_error info (ulp_reason put a b (b - a) ulp_tol) list)"
          by (simp only: if_True if_False)
        with f [of "ulp_reason put a b (b - a) ulp_tol"] True False show ?thesis
          by (simp only: if_False) simp
      next
        case nt: False
        with u(2) [OF lt(1)] have "\<not> ulp_conv ulp_tol < b - a" by simp
        with r lt have "?res = Some (True, list)" by (simp only: if_True if_False)
        with nt False show ?thesis by (simp only: if_False) simp
      qed
    next
      case eq
      then have "\<not> b < a" "\<not> a < b" by simp_all
      with r have "?res = Some (True, list)" by (simp only: if_False)
      with eq assms(6) False show ?thesis by (simp only: if_False) simp
    qed
  qed
qed

lemma bitlen_eq: "2 ^ k \<le> m \<Longrightarrow> m < 2 ^ Suc k \<Longrightarrow> bitlen m = Suc k"
proof (induction k arbitrary: m)
  case 0
  then have "m = 1" by simp
  then show ?case by (simp add: bitlen.simps)
next
  case (Suc k)
  from Suc.prems have "2 ^ k \<le> m div 2" "m div 2 < 2 ^ Suc k" by auto
  from Suc.IH [OF this] Suc.prems show ?case
    by (subst bitlen.simps) auto
qed

lemma epsilon_double: "(epsilon 52 :: 64 word) = 0x3cb0000000000000"
  by (simp add: epsilon_def emax_def)

lemma bl1: "bitlen (0x15798ee2308c3a * 2 ^ 995) = 1048"
  using bitlen_eq [of 1047 "0x15798ee2308c3a * 2 ^ 995"] by simp

lemmas ieee_arith = flt_def fgt_def sval_def scaled_def fabs_def fsub_def with_sign_def
  fround_def Let_def

lemma near_zero_passes:
  "assert_double_eq put info 0 0x3e45798ee2308c3a 10 0x3e6ad7f29abcaf48 list = Some (True, list)"
  by (simp add: assert_double_eq_def assert_ieee754_eq_def ieee_fields ieee_arith bl1 [simplified])

lemma bl2: "bitlen (0x10c6f7a0b5ed8d * 2 ^ 1003) = 1056"
  using bitlen_eq [of 1055 "0x10c6f7a0b5ed8d * 2 ^ 1003"] by simp

lemma straddle_diff:
  "fgt 52 (fabs (fsub 52 (0xbeb0c6f7a0b5ed8d :: 64 word) 0x3eb0c6f7a0b5ed8d)) (epsilon 52)"
  unfolding epsilon_double
  by (simp add: ieee_fields ieee_arith bl2 [simplified])

lemma bitlen_one: "bitlen (2 ^ 1074 + 2 ^ 1014) = 1075"
  using bitlen_eq [of 1074 "2 ^ 1074 + 2 ^ 1014"] by simp

text \<open>
  The absolute comparison is made on the difference as the format represents it. The
  doubles \<open>1.0\<close> and \<open>- (2 ^ - 60)\<close> differ in sign and their exact distance is
  above \<open>1.0\<close>; the computed difference rounds to \<open>1.0\<close>, which is not above the
  tolerance \<open>1.0\<close>, and the call passes.
\<close>

lemma rounded_difference_passes:
  "assert_double_eq put info 0x3ff0000000000000 0xbc30000000000000 10 0x3ff0000000000000 list =
     Some (True, list) \<and>
   sval 52 (0x3ff0000000000000 :: 64 word) <
     \<bar>sval 52 (0x3ff0000000000000 :: 64 word) - sval 52 (0xbc30000000000000 :: 64 word)\<bar>"
  by (simp add: assert_double_eq_def assert_ieee754_eq_def ieee_fields ieee_arith
      bitlen_one [simplified])

text \<open>
  Claim C5, as amended. For finite operands, a tolerance \<open>ulp_tol \<ge> 0\<close> and a current
  registered case, \<open>assert_ieee754_eq\<close> returns, and its result is false exactly when:
  in case the sign bits differ or both magnitudes are below \<open>abs_tol\<close>, the magnitude
  of the difference \<open>a - b\<close>, computed in the format of the operands, is greater than
  \<open>abs_tol\<close>; otherwise, the distance between the two bit patterns read as unsigned
  integers exceeds \<open>ulp_tol\<close>. For \<^verbatim>\<open>double\<close>, \<open>0.0\<close> against \<open>1e-8\<close> with
  \<open>ulp_tol = 10\<close> and \<open>abs_tol = 5e-8\<close> passes, and \<open>-0.000001\<close> against
  \<open>0.000001\<close> with \<open>ulp_tol = 10\<close> and the default \<open>abs_tol\<close> fails.
\<close>

theorem tolerance_branches:
  fixes a b :: "'a::len word"
  assumes "active list" and "\<not> isnan p a" and "\<not> isinf p a" and "\<not> isnan p b" and "\<not> isinf p b"
    and "0 \<le> sint ulp_tol" and "32 \<le> LENGTH('a)"
  shows "(\<exists>list'. assert_ieee754_eq p put info a b ulp_tol abs_tol list =
            Some (\<not> (if signbit a \<noteq> signbit b \<or>
                          (flt p (fabs a) abs_tol \<and> flt p (fabs b) abs_tol)
                       then fgt p (fabs (fsub p a b)) abs_tol
                       else sint ulp_tol < \<bar>uint a - uint b\<bar>), list')) \<and>
         assert_double_eq put' info 0 0x3e45798ee2308c3a 10 0x3e6ad7f29abcaf48 list =
           Some (True, list) \<and>
         (\<exists>list'. assert_double_eq put' info 0xbeb0c6f7a0b5ed8d 0x3eb0c6f7a0b5ed8d 10
                     (epsilon 52) list = Some (False, list'))"
proof -
  have f: "\<not> isnan 52 (0xbeb0c6f7a0b5ed8d :: 64 word)" "\<not> isinf 52 (0xbeb0c6f7a0b5ed8d :: 64 word)"
    "\<not> isnan 52 (0x3eb0c6f7a0b5ed8d :: 64 word)" "\<not> isinf 52 (0x3eb0c6f7a0b5ed8d :: 64 word)"
    by (simp_all add: ieee_fields)
  have s: "signbit (0xbeb0c6f7a0b5ed8d :: 64 word) \<noteq> signbit (0x3eb0c6f7a0b5ed8d :: 64 word)"
    by (simp add: signbit_def)
  have t: "(0::int) \<le> sint (10 :: 32 word)" "32 \<le> LENGTH(64)" by simp_all
  from ieee_branches [OF assms(1) f t, of put' info "epsilon 52"] s straddle_diff
  have "\<exists>list'. assert_double_eq put' info 0xbeb0c6f7a0b5ed8d 0x3eb0c6f7a0b5ed8d 10
                     (epsilon 52) list = Some (False, list')"
    by (simp add: assert_double_eq_def)
  with ieee_branches [OF assms, of put info abs_tol] near_zero_passes [of put' info list]
  show ?thesis by blast
qed

text \<open>
  The statement at \<^verbatim>\<open>float\<close> \<open>1337.0\<close> and the value 20 representable values
  above it, with \<open>ulp_tol = 10\<close>: the bit patterns are compared and the call fails.
\<close>

theorem tolerance_branches_witness:
  "active sample_registry \<and>
   \<not> isnan 23 (0x44a72000 :: 32 word) \<and> \<not> isinf 23 (0x44a72000 :: 32 word) \<and>
   \<not> isnan 23 (0x44a72014 :: 32 word) \<and> \<not> isinf 23 (0x44a72014 :: 32 word) \<and>
   0 \<le> sint (10 :: 32 word) \<and> 32 \<le> LENGTH(32) \<and>
   signbit (0x44a72000 :: 32 word) = signbit (0x44a72014 :: 32 word) \<and>
   \<not> flt 23 (fabs (0x44a72000 :: 32 word)) (epsilon 23) \<and>
   \<bar>uint (0x44a72000 :: 32 word) - uint (0x44a72014 :: 32 word)\<bar> = 20 \<and>
   (\<exists>list'. assert_float_eq (\<lambda>_. ''x'') sample_info 0x44a72000 0x44a72014 10 (epsilon 23)
      sample_registry = Some (False, list'))"
proof -
  have f: "\<not> isnan 23 (0x44a72000 :: 32 word)" "\<not> isinf 23 (0x44a72000 :: 32 word)"
    "\<not> isnan 23 (0x44a72014 :: 32 word)" "\<not> isinf 23 (0x44a72014 :: 32 word)"
    by (simp_all add: ieee_fields)
  have t: "(0::int) \<le> sint (10 :: 32 word)" "32 \<le> LENGTH(32)" by simp_all
  have s: "signbit (0x44a72000 :: 32 word) = signbit (0x44a72014 :: 32 word)"
    by (simp add: signbit_def)
  have e: "(epsilon 23 :: 32 word) = 0x34000000"
    by (simp add: epsilon_def emax_def)
  have m: "\<not> flt 23 (fabs (0x44a72000 :: 32 word)) (epsilon 23)"
    unfolding e by (simp add: fabs_def flt_def sval_def scaled_def ieee_fields)
  have d: "\<bar>uint (0x44a72000 :: 32 word) - uint (0x44a72014 :: 32 word)\<bar> = 20" by simp
  from tolerance_branches [OF sample_active f t, of "\<lambda>_. ''x''" sample_info "epsilon 23"]
  have "\<exists>list'. assert_float_eq (\<lambda>_. ''x'') sample_info 0x44a72000 0x44a72014 10 (epsilon 23)
      sample_registry = Some (False, list')"
    unfolding assert_float_eq_def using s m d by simp
  with sample_active f t s m d show ?thesis by blast
qed

text \<open>
  Claim C5 as stated fails at a negative \<open>ulp_tol\<close>: the doubles \<open>1.0\<close> and the
  value 5 representable values above it are finite, of the same sign and not below the
  default \<open>abs_tol\<close>; their distance 5 exceeds \<open>ulp_tol = -1\<close>, and the call
  returns true, because the comparison converts \<open>ulp_tol\<close> to the unsigned type.
\<close>

theorem negative_ulp_tol_counterexample:
  "\<not> isnan 52 (0x3ff0000000000000 :: 64 word) \<and> \<not> isinf 52 (0x3ff0000000000000 :: 64 word) \<and>
   \<not> isnan 52 (0x3ff0000000000005 :: 64 word) \<and> \<not> isinf 52 (0x3ff0000000000005 :: 64 word) \<and>
   signbit (0x3ff0000000000000 :: 64 word) = signbit (0x3ff0000000000005 :: 64 word) \<and>
   \<not> flt 52 (fabs (0x3ff0000000000000 :: 64 word)) (epsilon 52) \<and>
   \<bar>uint (0x3ff0000000000000 :: 64 word) - uint (0x3ff0000000000005 :: 64 word)\<bar> = 5 \<and>
   sint (- 1 :: 32 word) = - 1 \<and>
   assert_double_eq (\<lambda>_. ''x'') sample_info 0x3ff0000000000000 0x3ff0000000000005 (- 1)
     (epsilon 52) sample_registry = Some (True, sample_registry)"
proof -
  have f: "\<not> isnan 52 (0x3ff0000000000000 :: 64 word)" "\<not> isinf 52 (0x3ff0000000000000 :: 64 word)"
    "\<not> isnan 52 (0x3ff0000000000005 :: 64 word)" "\<not> isinf 52 (0x3ff0000000000005 :: 64 word)"
    by (simp_all add: ieee_fields)
  have s: "signbit (0x3ff0000000000000 :: 64 word) = signbit (0x3ff0000000000005 :: 64 word)"
    by (simp add: signbit_def)
  have m: "\<not> flt 52 (fabs (0x3ff0000000000000 :: 64 word)) (epsilon 52)"
    unfolding epsilon_double by (simp add: fabs_def flt_def sval_def scaled_def ieee_fields)
  have d: "\<bar>uint (0x3ff0000000000000 :: 64 word) - uint (0x3ff0000000000005 :: 64 word)\<bar> = 5"
    by simp
  have u: "(ulp_conv (- 1) :: 64 word) = 0xffffffffffffffff"
    by (simp add: ulp_conv_def)
  have r: "assert_double_eq (\<lambda>_. ''x'') sample_info 0x3ff0000000000000 0x3ff0000000000005 (- 1)
     (epsilon 52) sample_registry = Some (True, sample_registry)"
    unfolding assert_double_eq_def assert_ieee754_eq_def using f s m by (simp add: u)
  from f s m d r show ?thesis by simp
qed
section \<open>Properties of the driver and of the aggregation protocol\<close>

lemma largest_is_Max:
  "largest_test_size ts = Max (set (0 # map test_size ts))"
proof -
  have f: "(\<lambda>m t. if m < test_size t then test_size t else m) = (\<lambda>m t. max (test_size t) m)"
    by (auto simp: max_def fun_eq_iff)
  have "largest_test_size ts = fold (\<lambda>t m. max (test_size t) m) ts 0"
    by (simp add: largest_test_size_def f foldl_conv_fold)
  also have "\<dots> = fold max (map test_size ts) 0"
    by (simp add: fold_map comp_def)
  also have "\<dots> = Max (set (0 # map test_size ts))"
    by (simp only: Max.set_eq_fold)
  finally show ?thesis .
qed

lemma largest_when_short:
  assumes "ts \<noteq> []" and "0 < n" and "n < Max (set (map test_size ts))"
  shows "largest_test_size ts = Max (set (map test_size ts))"
proof -
  from assms(1) have ne: "set (map test_size ts) \<noteq> {}" by simp
  have "largest_test_size ts = max 0 (Max (set (map test_size ts)))"
    using ne by (simp add: largest_is_Max)
  with assms(2,3) show ?thesis by (simp add: max_def)
qed

lemma prints_simps:
  "prints [] = []"
  "prints (Printf s # es) = s # prints es"
  "prints (Barrier # es) = prints es"
  "prints (Finalize # es) = prints es"
  "prints (xs @ ys) = prints xs @ prints ys"
  by (simp_all add: prints_def)

lemma please_not_blank: "please_line n \<noteq> newline @ newline"
  by (simp add: please_line_def newline_def)

text \<open>
  Claim C2. If the registry is not empty and the program is launched on fewer processes
  than the largest \<open>test_size\<close> of the registered tests, then on every process
  \<^verbatim>\<open>main\<close> returns 0 after \<^verbatim>\<open>MPI_Finalize\<close> without invoking any entry point, and
  the line that names the largest \<open>test_size\<close> as the number of processes to launch
  with is printed by rank 0 only, once: over all processes it is printed exactly once.
\<close>

theorem too_few_processes:
  assumes "tests list \<noteq> []" and "0 < size'"
    and "size' < Max (set (map test_size (tests list)))"
  shows "main_proc rank size' nets list =
           Some ((if rank = 0 then [Printf (newline @ newline)] else []) @ [Barrier] @
                 (if rank = 0
                  then [Printf (please_line (Max (set (map test_size (tests list)))))] else []) @
                 [Finalize], 0) \<and>
         \<not> list_ex is_entry (fst (the (main_proc rank size' nets list))) \<and>
         (\<Sum>r\<leftarrow>[0..<nat size'].
            count_list (prints (fst (the (main_proc (int r) size' nets list))))
              (please_line (Max (set (map test_size (tests list)))))) = 1"
proof -
  let ?M = "Max (set (map test_size (tests list)))"
  note l = largest_when_short [OF assms]
  have m: "\<And>r. main_proc r size' nets list =
           Some ((if r = 0 then [Printf (newline @ newline)] else []) @ [Barrier] @
                 (if r = 0 then [Printf (please_line ?M)] else []) @ [Finalize], 0)"
    using assms(3) by (simp add: main_proc_def Let_def l)
  have e: "\<not> list_ex is_entry (fst (the (main_proc rank size' nets list)))"
    by (simp add: m is_entry_def)
  have c: "\<And>r. count_list (prints (fst (the (main_proc (int r) size' nets list)))) (please_line ?M) =
             (if r = 0 then 1 else 0)"
    by (simp add: m prints_simps please_not_blank)
  have z: "(\<Sum>r\<leftarrow>[1..<nat size']. (if r = 0 then 1 else 0 :: nat)) = 0"
    by (simp add: sum_list_eq_0_iff)
  from assms(2) have u: "[0..<nat size'] = 0 # [1..<nat size']"
    by (simp add: upt_conv_Cons)
  have "(\<Sum>r\<leftarrow>[0..<nat size'].
      count_list (prints (fst (the (main_proc (int r) size' nets list)))) (please_line ?M)) =
      (\<Sum>r\<leftarrow>[0..<nat size']. (if r = 0 then 1 else 0 :: nat))"
    by (simp only: c)
  also have "\<dots> = 1"
    by (simp only: u sum_list.Cons list.map z) simp
  finally show ?thesis using m [of rank] e by simp
qed


lemma appended_one_active: "active list \<Longrightarrow> appended_one rec list list' \<Longrightarrow> active list'"
proof -
  assume a: "active list" and b: "appended_one rec list list'"
  from b have "length (registration list') = length (registration list)"
    by (simp add: appended_one_def)
  then have "length (tests list') = length (tests list)" by (simp add: registration_def)
  with a b show ?thesis by (simp add: active_def appended_one_def)
qed

lemma register_all_active:
  "active list \<Longrightarrow>
   \<exists>list'. register_all fs list = Some list' \<and> current_test list' = current_test list \<and>
     registration list' = registration list \<and>
     ledgers list' =
       (ledgers list)[nat (current_test list) := ledgers list ! nat (current_test list) @ fs]"
proof (induction fs arbitrary: list)
  case Nil
  then show ?case by simp
next
  case (Cons f fs)
  have eta: "\<lparr>assertion = assertion f, reason = reason f\<rparr> = f" by (cases f) simp
  from register_error_active [OF Cons.prems, of "assertion f" "reason f"]
  obtain l1 where l1: "register_error (assertion f) (reason f) list = Some l1"
    "appended_one f list l1" unfolding eta by auto
  from appended_one_active [OF Cons.prems l1(2)] have a1: "active l1" .
  from Cons.IH [OF a1] obtain l2 where l2: "register_all fs l1 = Some l2"
    "current_test l2 = current_test l1" "registration l2 = registration l1"
    "ledgers l2 = (ledgers l1)[nat (current_test l1) := ledgers l1 ! nat (current_test l1) @ fs]"
    by blast
  let ?c = "nat (current_test list)"
  from Cons.prems have c: "?c < length (ledgers list)" by (auto simp: active_def ledgers_def)
  from l1(2) have e: "current_test l1 = current_test list" "registration l1 = registration list"
    "ledgers l1 = (ledgers list)[?c := ledgers list ! ?c @ [f]]"
    by (simp_all add: appended_one_def)
  from l2(4) c have "ledgers l2 = (ledgers list)[?c := ledgers list ! ?c @ f # fs]"
    by (simp add: e)
  with l1(1) l2 e show ?case by simp
qed

lemma registration_nth:
  assumes "registration l' = registration l" and "i < length (tests l)"
  shows "length (tests l') = length (tests l) \<and>
         test_size (tests l' ! i) = test_size (tests l ! i) \<and>
         test_name (tests l' ! i) = test_name (tests l ! i)"
proof -
  from assms(1) have "length (registration l') = length (registration l)" by simp
  then have len: "length (tests l') = length (tests l)" by (simp add: registration_def)
  from assms(1) have "registration l' ! i = registration l ! i" by simp
  with assms(2) len have "(tests l' ! i)\<lparr>fails := []\<rparr> = (tests l ! i)\<lparr>fails := []\<rparr>"
    by (simp add: registration_def)
  then have "test_size ((tests l' ! i)\<lparr>fails := []\<rparr>) = test_size ((tests l ! i)\<lparr>fails := []\<rparr>)"
    "test_name ((tests l' ! i)\<lparr>fails := []\<rparr>) = test_name ((tests l ! i)\<lparr>fails := []\<rparr>)"
    by simp_all
  with len show ?thesis by simp
qed

lemma after_entry_returns:
  assumes "ti < length (tests list)"
  shows "\<exists>list'. after_entry r ti list = Some list' \<and>
           ti < length (tests list') \<and>
           test_size (tests list' ! ti) = test_size (tests list ! ti) \<and>
           test_name (tests list' ! ti) = test_name (tests list ! ti) \<and>
           fails (tests list' ! ti) =
             fails (tests list ! ti) @ fptr (tests list ! ti) r (test_size (tests list ! ti))"
proof -
  let ?l = "list\<lparr>current_test := int ti\<rparr>"
  let ?fs = "fptr (tests list ! ti) r (test_size (tests list ! ti))"
  from assms have a: "active ?l" by (simp add: active_def)
  from register_all_active [OF a, of ?fs] obtain l' where l':
    "register_all ?fs ?l = Some l'" "registration l' = registration ?l"
    "ledgers l' = (ledgers ?l)[ti := ledgers ?l ! ti @ ?fs]"
    by auto
  from assms have t: "ti < length (tests ?l)" by simp
  from registration_nth [OF l'(2) t] have n: "length (tests l') = length (tests list)"
    "test_size (tests l' ! ti) = test_size (tests list ! ti)"
    "test_name (tests l' ! ti) = test_name (tests list ! ti)" by simp_all
  from l'(3) have "ledgers l' ! ti = (ledgers ?l)[ti := ledgers ?l ! ti @ ?fs] ! ti" by simp
  with assms n(1) have "fails (tests l' ! ti) = fails (tests list ! ti) @ ?fs"
    by (simp add: ledgers_def)
  with l'(1) n assms show ?thesis by (simp add: after_entry_def Let_def)
qed


lemma sent_append: "sent (xs @ ys) = sent xs @ sent ys"
  by (simp add: sent_def)

lemma received_append: "received (xs @ ys) = received xs @ received ys"
  by (simp add: received_def)

lemma sent_indices:
  "sent (concat (map (\<lambda>i. [Snprintf i (g i), Issend i (g i) 0 (int i)]) is)) =
     map (\<lambda>i. (0, int i, g i)) is"
  by (induction "is") (simp_all add: sent_def)

lemma sent_send_loop:
  "sent (send_loop r t) =
     map (\<lambda>fi. (0, int fi, fail_message r (fails t ! fi))) [0..<length (fails t)]"
  by (simp add: send_loop_def sent_indices)

lemma received_send_loop: "received (send_loop r t) = []"
  by (simp add: received_def send_loop_def)

lemma prints_send_loop: "prints (send_loop r t) = []"
  by (simp add: prints_def send_loop_def)

lemma find_send_indices:
  "find_send 0 (int fi)
     (concat (map (\<lambda>i. [Snprintf i (g i), Issend i (g i) 0 (int i)]) is)) =
   (if fi \<in> set is then Some (g fi) else None)"
  by (induction "is") auto

lemma find_send_loop:
  "fi < length (fails t) \<Longrightarrow>
   find_send 0 (int fi) (send_loop r t) = Some (fail_message r (fails t ! fi))"
  by (simp add: send_loop_def find_send_indices)

lemma recv_from_all:
  "(\<forall>fi \<in> set fis. dl ri (int fi) = Some (g fi)) \<Longrightarrow>
   recv_from dl ri fis =
     Some (concat (map (\<lambda>fi. [Recv ri (int fi) (g fi), Printf (cstr (g fi) @ newline)]) fis))"
  by (induction fis) auto

lemma recv_loop_all:
  "(\<forall>ri \<in> set ris. \<forall>fi < nat (gathered nt (int ri)).
      deliver nt (int ri) (int fi) = Some (g ri fi)) \<Longrightarrow>
   recv_loop nt ris =
     Some (concat (map (\<lambda>ri. concat (map (\<lambda>fi. [Recv (int ri) (int fi) (g ri fi),
                                                  Printf (cstr (g ri fi) @ newline)])
                                        [0..<nat (gathered nt (int ri))])) ris))"
proof (induction ris)
  case Nil
  show ?case by simp
next
  case (Cons ri ris)
  from Cons.prems have "\<forall>fi \<in> set [0..<nat (gathered nt (int ri))].
      deliver nt (int ri) (int fi) = Some (g ri fi)" by simp
  from recv_from_all [of "[0..<nat (gathered nt (int ri))]" "deliver nt" "int ri" "g ri", OF this]
    Cons show ?case by simp
qed


lemma run_test_participant:
  assumes "run_test r ti nt list0 = Some (es, list')" and "r < test_size (tests list0 ! ti)"
  shows "\<exists>rs. after_entry r ti list0 = Some list' \<and>
           (if r = 0 then recv_loop nt [0..<nat (test_size (tests list0 ! ti))] else Some []) = Some rs \<and>
           es = [Comm_split 1 r] @
                (if r = 0 then [Printf (running_line (tests list' ! ti))] else []) @
                [Entry ti, Gather (int (length (fails (tests list' ! ti))))] @
                (if r = 0 \<and> num_fails_total nt (test_size (tests list0 ! ti)) = 0
                 then [Printf (success_line (tests list' ! ti))] else []) @
                send_loop r (tests list' ! ti) @ rs @
                [Waitall (length (fails (tests list' ! ti))), Delete_requests, Delete_statuses,
                 Delete_send_buff] @
                (if r = 0 then [Delete_counts] else []) @
                (if r = 0 \<and> num_fails_total nt (test_size (tests list0 ! ti)) \<noteq> 0
                 then [Printf (fail_line (tests list' ! ti))] else []) @
                [Barrier, Comm_free]"
  using assms
  by (auto simp: run_test_def Let_def split: option.splits if_splits)

lemma run_test_returns:
  assumes "after_entry r ti list0 = Some list'"
    and "(if r = 0 then recv_loop nt [0..<nat (test_size (tests list0 ! ti))] else Some []) = Some rs"
    and "r < test_size (tests list0 ! ti)"
    and "int (length (fails (tests list' ! ti))) \<le> INT_MAX"
    and "offsets_fit (length (fails (tests list' ! ti)))"
    and "r = 0 \<longrightarrow>
           sums_fit 0 (map (\<lambda>ri. gathered nt (int ri)) [0..<nat (test_size (tests list0 ! ti))])"
  shows "\<exists>es. run_test r ti nt list0 = Some (es, list')"
  using assms by (auto simp: run_test_def Let_def split: option.splits if_splits)


lemma recv_from_passive:
  "recv_from dl ri fis = Some rs \<Longrightarrow> list_all (\<lambda>e. is_recv e \<or> is_print e) rs"
  by (induction fis arbitrary: rs) (auto simp: is_recv_def is_print_def split: option.splits)

lemma recv_loop_passive:
  "recv_loop nt ris = Some rs \<Longrightarrow> list_all (\<lambda>e. is_recv e \<or> is_print e) rs"
proof (induction ris arbitrary: rs)
  case Nil
  then show ?case by simp
next
  case (Cons ri ris)
  from Cons.prems obtain a b where ab:
    "recv_from (deliver nt) (int ri) [0..<nat (gathered nt (int ri))] = Some a"
    "recv_loop nt ris = Some b" "rs = a @ b"
    by (auto split: option.splits)
  from recv_from_passive [OF ab(1)] Cons.IH [OF ab(2)] ab(3) show ?case by simp
qed

lemma root_receives_passive:
  "(if r = 0 then recv_loop nt ris else Some []) = Some rs \<Longrightarrow>
   list_all (\<lambda>e. is_recv e \<or> is_print e) rs"
  using recv_loop_passive [of nt ris rs] by (cases "r = 0") auto

lemma passive_sent: "list_all (\<lambda>e. is_recv e \<or> is_print e) rs \<Longrightarrow> sent rs = []"
  by (induction rs) (auto simp: sent_def is_recv_def is_print_def split: event.splits)

lemma passive_buffer:
  "list_all (\<lambda>e. is_recv e \<or> is_print e) rs \<Longrightarrow> buffer_run fl rs = Some fl"
  by (induction rs) (auto simp: is_recv_def is_print_def split: event.splits)

lemma buffer_run_append:
  "buffer_run fl (xs @ ys) =
     (case buffer_run fl xs of None \<Rightarrow> None | Some fl' \<Rightarrow> buffer_run fl' ys)"
  by (induction xs arbitrary: fl) (auto split: option.splits)

lemma buffer_run_sends:
  "distinct is \<Longrightarrow> set is \<inter> fl = {} \<Longrightarrow>
   buffer_run fl (concat (map (\<lambda>i. [Snprintf i (g i), Issend i (g i) 0 (int i)]) is)) =
     Some (fl \<union> set is)"
proof (induction "is" arbitrary: fl)
  case Nil
  then show ?case by simp
next
  case (Cons i "is")
  from Cons.prems have "distinct is" "set is \<inter> insert i fl = {}" "i \<notin> fl" by auto
  with Cons.IH [of "insert i fl"] show ?case by simp
qed

lemma buffer_send_loop: "buffer_run {} (send_loop r t) = Some {0..<length (fails t)}"
  using buffer_run_sends [of "[0..<length (fails t)]" "{}"]
  by (simp add: send_loop_def)

lemma buffer_participant:
  assumes "run_test r ti nt list0 = Some (es, list')"
  shows "buffer_run {} es = Some {}"
proof (cases "r < test_size (tests list0 ! ti)")
  case True
  from run_test_participant [OF assms True] obtain rs where
    rs: "(if r = 0 then recv_loop nt [0..<nat (test_size (tests list0 ! ti))] else Some []) = Some rs"
    and es: "es = [Comm_split 1 r] @
                (if r = 0 then [Printf (running_line (tests list' ! ti))] else []) @
                [Entry ti, Gather (int (length (fails (tests list' ! ti))))] @
                (if r = 0 \<and> num_fails_total nt (test_size (tests list0 ! ti)) = 0
                 then [Printf (success_line (tests list' ! ti))] else []) @
                send_loop r (tests list' ! ti) @ rs @
                [Waitall (length (fails (tests list' ! ti))), Delete_requests, Delete_statuses,
                 Delete_send_buff] @
                (if r = 0 then [Delete_counts] else []) @
                (if r = 0 \<and> num_fails_total nt (test_size (tests list0 ! ti)) \<noteq> 0
                 then [Printf (fail_line (tests list' ! ti))] else []) @
                [Barrier, Comm_free]"
    by blast
  note p = passive_buffer [OF root_receives_passive [OF rs]]
  show ?thesis
    unfolding es by (simp add: buffer_run_append buffer_send_loop p)
next
  case False
  with assms have "es = [Comm_split 0 r, Barrier, Comm_free]"
    by (simp add: run_test_def Let_def)
  then show ?thesis by simp
qed


lemma world_after_entry:
  assumes "agree regs ti"
  shows "\<exists>list'. after_entry r ti (regs r) = Some list' \<and>
           test_size (tests list' ! ti) = test_size (tests (regs 0) ! ti) \<and>
           test_name (tests list' ! ti) = test_name (tests (regs 0) ! ti) \<and>
           fails (tests list' ! ti) = ledger regs ti r"
proof -
  from assms have a: "ti < length (tests (regs r))"
    "test_size (tests (regs r) ! ti) = test_size (tests (regs 0) ! ti)"
    "test_name (tests (regs r) ! ti) = test_name (tests (regs 0) ! ti)"
    by (simp_all add: agree_def)
  from after_entry_returns [OF a(1), of r] obtain l' where l':
    "after_entry r ti (regs r) = Some l'"
    "test_size (tests l' ! ti) = test_size (tests (regs r) ! ti)"
    "test_name (tests l' ! ti) = test_name (tests (regs r) ! ti)"
    by blast
  from l'(1) have "fails (tests l' ! ti) = ledger regs ti r" by (simp add: ledger_def)
  with l' a show ?thesis by simp
qed

lemma world_deliver:
  assumes "agree regs ti" and "0 \<le> ri" and "ri < test_size (tests (regs 0) ! ti)"
    and "fi < length (ledger regs ti ri)"
  shows "deliver (world_net regs ti) ri (int fi) = Some (fail_message ri (ledger regs ti ri ! fi))"
proof -
  from assms(1) have a: "test_size (tests (regs ri) ! ti) = test_size (tests (regs 0) ! ti)"
    by (simp add: agree_def)
  from world_after_entry [OF assms(1), of ri] obtain l' where l':
    "after_entry ri ti (regs ri) = Some l'" "fails (tests l' ! ti) = ledger regs ti ri"
    by blast
  from assms(4) l'(2) have "find_send 0 (int fi) (send_loop ri (tests l' ! ti)) =
      Some (fail_message ri (ledger regs ti ri ! fi))"
    by (simp add: find_send_loop)
  with assms(2,3) a l'(1) show ?thesis by (simp add: world_net_def)
qed

lemma world_gathered: "gathered (world_net regs ti) ri = int (length (ledger regs ti ri))"
  by (simp add: world_net_def)

lemma world_recv_loop:
  assumes "agree regs ti"
  shows "recv_loop (world_net regs ti) [0..<nat (test_size (tests (regs 0) ! ti))] =
     Some (concat (map (\<lambda>ri. concat (map (\<lambda>fi.
             [Recv (int ri) (int fi) (fail_message (int ri) (ledger regs ti (int ri) ! fi)),
              Printf (cstr (fail_message (int ri) (ledger regs ti (int ri) ! fi)) @ newline)])
             [0..<length (ledger regs ti (int ri))]))
           [0..<nat (test_size (tests (regs 0) ! ti))]))"
proof -
  have "\<forall>ri \<in> set [0..<nat (test_size (tests (regs 0) ! ti))].
          \<forall>fi < nat (gathered (world_net regs ti) (int ri)).
            deliver (world_net regs ti) (int ri) (int fi) =
              Some (fail_message (int ri) (ledger regs ti (int ri) ! fi))"
    using world_deliver [OF assms] by (simp add: world_gathered)
  from recv_loop_all [of "[0..<nat (test_size (tests (regs 0) ! ti))]" "world_net regs ti"
      "\<lambda>ri fi. fail_message (int ri) (ledger regs ti (int ri) ! fi)", OF this]
  show ?thesis by (simp add: world_gathered)
qed

lemma offsets_fit_iff: "offsets_fit n \<longleftrightarrow> n \<le> 2097152"
proof
  assume a: "offsets_fit n"
  show "n \<le> 2097152"
  proof (cases n)
    case 0
    then show ?thesis by simp
  next
    case (Suc m)
    with a have "int FAIL_MESSAGE_SIZE * int m \<le> INT_MAX"
      by (simp add: offsets_fit_def list_all_iff)
    then have "m \<le> 2097151" by (simp add: FAIL_MESSAGE_SIZE_def INT_MAX_def)
    with Suc show ?thesis by simp
  qed
next
  assume "n \<le> 2097152"
  then show "offsets_fit n"
    by (auto simp: offsets_fit_def list_all_iff FAIL_MESSAGE_SIZE_def INT_MAX_def)
qed

lemma run_test_overflow:
  assumes "after_entry r ti list0 = Some list'" and "r < test_size (tests list0 ! ti)"
    and "2097152 < length (fails (tests list' ! ti))"
  shows "run_test r ti nt list0 = None"
  using assms by (simp add: run_test_def Let_def offsets_fit_iff)

lemma sums_fit_nonneg:
  "\<forall>c \<in> set cs. 0 \<le> c \<Longrightarrow> 0 \<le> acc \<Longrightarrow> acc + sum_list cs \<le> INT_MAX \<Longrightarrow>
   sums_fit acc cs"
proof (induction cs arbitrary: acc)
  case Nil
  show ?case by simp
next
  case (Cons c cs)
  from Cons.prems have c: "0 \<le> c" "\<forall>c \<in> set cs. 0 \<le> c" "0 \<le> sum_list cs"
    by (simp_all add: sum_list_nonneg)
  with Cons.prems have "0 \<le> acc + c" "acc + c + sum_list cs \<le> INT_MAX" "acc + c \<le> INT_MAX"
    by simp_all
  with Cons.IH [OF c(2)] Cons.prems(2) show ?case by (simp add: INT_MAX_def)
qed

lemma int_sum_list_map: "sum_list (map int ns) = int (sum_list ns)"
  by (induction ns) simp_all

lemma world_sums_fit:
  assumes "fits regs ti"
  shows "sums_fit 0 (map (\<lambda>ri. gathered (world_net regs ti) (int ri))
           [0..<nat (test_size (tests (regs 0) ! ti))])"
proof -
  let ?ns = "map (\<lambda>ri. length (ledger regs ti (int ri))) [0..<nat (test_size (tests (regs 0) ! ti))]"
  have m: "map (\<lambda>ri. gathered (world_net regs ti) (int ri))
      [0..<nat (test_size (tests (regs 0) ! ti))] = map int ?ns"
    by (simp add: world_gathered comp_def)
  from assms int_sum_list_map [of ?ns] have "0 + sum_list (map int ?ns) \<le> INT_MAX" by (simp add: fits_def)
  then show ?thesis unfolding m by (intro sums_fit_nonneg) simp_all
qed

lemma participant_fits:
  assumes "fits regs ti" and "0 \<le> r" and "r < test_size (tests (regs 0) ! ti)"
  shows "int (length (ledger regs ti r)) \<le> INT_MAX"
proof -
  let ?ns = "map (\<lambda>ri. length (ledger regs ti (int ri))) [0..<nat (test_size (tests (regs 0) ! ti))]"
  from assms(2,3) have "nat r \<in> set [0..<nat (test_size (tests (regs 0) ! ti))]" by simp
  then have "(\<lambda>ri. length (ledger regs ti (int ri))) (nat r) \<in>
      (\<lambda>ri. length (ledger regs ti (int ri))) ` set [0..<nat (test_size (tests (regs 0) ! ti))]"
    by (rule imageI)
  then have "length (ledger regs ti (int (nat r))) \<in> set ?ns" by (simp only: set_map)
  then have "length (ledger regs ti (int (nat r))) \<le> sum_list ?ns"
    by (intro member_le_sum_list) simp_all
  with assms(1,2) show ?thesis by (simp add: fits_def)
qed

lemma participant_offsets_fit:
  assumes "fits regs ti" and "0 \<le> r" and "r < test_size (tests (regs 0) ! ti)"
  shows "offsets_fit (length (ledger regs ti r))"
proof -
  from assms(2,3) have n: "nat r \<in> set [0..<nat (test_size (tests (regs 0) ! ti))]"
    "int (nat r) = r" by simp_all
  from assms(1) have "\<forall>ri \<in> set [0..<nat (test_size (tests (regs 0) ! ti))].
      offsets_fit (length (ledger regs ti (int ri)))"
    by (simp add: fits_def list_all_iff)
  with n(1) have "offsets_fit (length (ledger regs ti (int (nat r))))" by blast
  then show ?thesis by (simp only: n(2))
qed

lemma world_returns:
  assumes "agree regs ti" and "fits regs ti" and "0 \<le> r"
  shows "\<exists>es list'. world_run_test regs ti r = Some (es, list')"
proof (cases "r < test_size (tests (regs r) ! ti)")
  case True
  from world_after_entry [OF assms(1), of r] obtain l' where
    l': "after_entry r ti (regs r) = Some l'" and f: "fails (tests l' ! ti) = ledger regs ti r"
    by blast
  from assms(1) have a: "test_size (tests (regs r) ! ti) = test_size (tests (regs 0) ! ti)"
    by (simp add: agree_def)
  have "\<exists>rs. (if r = 0 then recv_loop (world_net regs ti)
                  [0..<nat (test_size (tests (regs r) ! ti))] else Some []) = Some rs"
    using world_recv_loop [OF assms(1)] by (simp add: a)
  then obtain rs where rs: "(if r = 0 then recv_loop (world_net regs ti)
                  [0..<nat (test_size (tests (regs r) ! ti))] else Some []) = Some rs" ..
  from True a have p: "r < test_size (tests (regs 0) ! ti)" by simp
  from participant_fits [OF assms(2,3) p] have n: "int (length (fails (tests l' ! ti))) \<le> INT_MAX"
    by (simp only: f)
  from participant_offsets_fit [OF assms(2,3) p]
  have o: "offsets_fit (length (fails (tests l' ! ti)))" by (simp only: f)
  from world_sums_fit [OF assms(2)] have t: "r = 0 \<longrightarrow>
      sums_fit 0 (map (\<lambda>ri. gathered (world_net regs ti) (int ri))
        [0..<nat (test_size (tests (regs r) ! ti))])"
    by (simp only: a) simp
  from run_test_returns [OF l' rs True n o t] show ?thesis by (auto simp: world_run_test_def)
next
  case False
  then show ?thesis by (simp add: world_run_test_def run_test_def Let_def)
qed

lemma prints_Cons: "prints (e # es) = (case e of Printf s \<Rightarrow> [s] | _ \<Rightarrow> []) @ prints es"
  by (simp add: prints_def)

lemma sent_Cons: "sent (e # es) = (case e of Issend fi m d t \<Rightarrow> [(d, t, m)] | _ \<Rightarrow> []) @ sent es"
  by (simp add: sent_def)

lemma received_Cons:
  "received (e # es) = (case e of Recv s t m \<Rightarrow> [(s, t, m)] | _ \<Rightarrow> []) @ received es"
  by (simp add: received_def)

lemma obs_Nil: "prints [] = []" "sent [] = []" "received [] = []"
  by (simp_all add: prints_def sent_def received_def)

lemmas obs = prints_Cons sent_Cons received_Cons obs_Nil prints_simps(5) sent_append received_append

lemma received_recv_indices:
  "received (concat (map (\<lambda>fi. [Recv ri (int fi) (g fi), Printf (h fi)]) fis)) =
     map (\<lambda>fi. (ri, int fi, g fi)) fis"
  by (induction fis) (simp_all add: obs)

lemma prints_recv_indices:
  "prints (concat (map (\<lambda>fi. [Recv ri (int fi) (g fi), Printf (h fi)]) fis)) = map h fis"
  by (induction fis) (simp_all add: obs)

lemma received_concat: "received (concat xss) = concat (map received xss)"
  by (induction xss) (simp_all add: obs)

lemma prints_concat: "prints (concat xss) = concat (map prints xss)"
  by (induction xss) (simp_all add: obs)

lemma line_cong:
  "test_name a = test_name b \<Longrightarrow> test_size a = test_size b \<Longrightarrow>
   running_line a = running_line b \<and> success_line a = success_line b \<and> fail_line a = fail_line b"
  by (simp add: running_line_def success_line_def fail_line_def)

lemma world_total_zero:
  "num_fails_total (world_net regs ti) sz = 0 \<longleftrightarrow>
     (\<forall>ri \<in> set [0..<nat sz]. ledger regs ti (int ri) = [])"
proof -
  have "num_fails_total (world_net regs ti) sz =
      sum_list (map (\<lambda>ri. int (length (ledger regs ti (int ri)))) [0..<nat sz])"
    by (simp add: num_fails_total_def world_gathered)
  moreover have "sum_list (map (\<lambda>ri. int (length (ledger regs ti (int ri)))) [0..<nat sz]) = 0 \<longleftrightarrow>
      (\<forall>x \<in> set (map (\<lambda>ri. int (length (ledger regs ti (int ri)))) [0..<nat sz]). x = 0)"
    by (rule sum_list_nonneg_eq_0_iff) auto
  ultimately show ?thesis by auto
qed

lemma world_trace:
  assumes "agree regs ti" and "r < test_size (tests (regs 0) ! ti)"
    and "fits regs ti" and "0 \<le> r"
  shows "\<exists>list' t. world_run_test regs ti r =
      Some ([Comm_split 1 r] @
            (if r = 0 then [Printf (running_line (tests (regs 0) ! ti))] else []) @
            [Entry ti, Gather (int (length (ledger regs ti r)))] @
            (if r = 0 \<and> num_fails_total (world_net regs ti) (test_size (tests (regs 0) ! ti)) = 0
             then [Printf (success_line (tests (regs 0) ! ti))] else []) @
            send_loop r t @
            (if r = 0 then
               concat (map (\<lambda>ri. concat (map (\<lambda>fi.
                 [Recv (int ri) (int fi) (fail_message (int ri) (ledger regs ti (int ri) ! fi)),
                  Printf (cstr (fail_message (int ri) (ledger regs ti (int ri) ! fi)) @ newline)])
                 [0..<length (ledger regs ti (int ri))]))
               [0..<nat (test_size (tests (regs 0) ! ti))])
             else []) @
            [Waitall (length (ledger regs ti r)), Delete_requests, Delete_statuses,
             Delete_send_buff] @
            (if r = 0 then [Delete_counts] else []) @
            (if r = 0 \<and> num_fails_total (world_net regs ti) (test_size (tests (regs 0) ! ti)) \<noteq> 0
             then [Printf (fail_line (tests (regs 0) ! ti))] else []) @
            [Barrier, Comm_free], list') \<and>
      fails t = ledger regs ti r"
proof -
  from assms(1) have a: "test_size (tests (regs r) ! ti) = test_size (tests (regs 0) ! ti)"
    by (simp add: agree_def)
  from world_returns [OF assms(1,3,4)] obtain es l' where
    w: "run_test r ti (world_net regs ti) (regs r) = Some (es, l')"
    by (auto simp: world_run_test_def)
  from assms(2) a have p: "r < test_size (tests (regs r) ! ti)" by simp
  from run_test_participant [OF w p] obtain rs where
    ae: "after_entry r ti (regs r) = Some l'"
    and rs: "(if r = 0 then recv_loop (world_net regs ti)
               [0..<nat (test_size (tests (regs r) ! ti))] else Some []) = Some rs"
    and es: "es = [Comm_split 1 r] @
                (if r = 0 then [Printf (running_line (tests l' ! ti))] else []) @
                [Entry ti, Gather (int (length (fails (tests l' ! ti))))] @
                (if r = 0 \<and> num_fails_total (world_net regs ti) (test_size (tests (regs r) ! ti)) = 0
                 then [Printf (success_line (tests l' ! ti))] else []) @
                send_loop r (tests l' ! ti) @ rs @
                [Waitall (length (fails (tests l' ! ti))), Delete_requests, Delete_statuses,
                 Delete_send_buff] @
                (if r = 0 then [Delete_counts] else []) @
                (if r = 0 \<and> num_fails_total (world_net regs ti) (test_size (tests (regs r) ! ti)) \<noteq> 0
                 then [Printf (fail_line (tests l' ! ti))] else []) @
                [Barrier, Comm_free]"
    by blast
  from world_after_entry [OF assms(1), of r] ae have t:
    "test_size (tests l' ! ti) = test_size (tests (regs 0) ! ti)"
    "test_name (tests l' ! ti) = test_name (tests (regs 0) ! ti)"
    "fails (tests l' ! ti) = ledger regs ti r"
    by simp_all
  note lc = line_cong [OF t(2) t(1)]
  from rs world_recv_loop [OF assms(1)] have rs': "rs = (if r = 0 then
               concat (map (\<lambda>ri. concat (map (\<lambda>fi.
                 [Recv (int ri) (int fi) (fail_message (int ri) (ledger regs ti (int ri) ! fi)),
                  Printf (cstr (fail_message (int ri) (ledger regs ti (int ri) ! fi)) @ newline)])
                 [0..<length (ledger regs ti (int ri))]))
               [0..<nat (test_size (tests (regs 0) ! ti))])
             else [])"
    by (cases "r = 0") (simp_all add: a)
  show ?thesis
    apply (rule exI [of _ l'])
    apply (rule exI [of _ "tests l' ! ti"])
    apply (simp only: world_run_test_def w es lc t a)
    apply (subst rs')
    apply simp
    done
qed


lemma world_sent:
  assumes "agree regs ti" and "r < test_size (tests (regs 0) ! ti)"
    and "fits regs ti" and "0 \<le> r"
  shows "\<exists>es list'. world_run_test regs ti r = Some (es, list') \<and>
           sent es = map (\<lambda>fi. (0, int fi, fail_message r (ledger regs ti r ! fi)))
                       [0..<length (ledger regs ti r)] \<and>
           gather_first es"
proof -
  from world_trace [OF assms] obtain l' t where
    w: "world_run_test regs ti r = Some ([Comm_split 1 r] @
            (if r = 0 then [Printf (running_line (tests (regs 0) ! ti))] else []) @
            [Entry ti, Gather (int (length (ledger regs ti r)))] @
            (if r = 0 \<and> num_fails_total (world_net regs ti) (test_size (tests (regs 0) ! ti)) = 0
             then [Printf (success_line (tests (regs 0) ! ti))] else []) @
            send_loop r t @
            (if r = 0 then
               concat (map (\<lambda>ri. concat (map (\<lambda>fi.
                 [Recv (int ri) (int fi) (fail_message (int ri) (ledger regs ti (int ri) ! fi)),
                  Printf (cstr (fail_message (int ri) (ledger regs ti (int ri) ! fi)) @ newline)])
                 [0..<length (ledger regs ti (int ri))]))
               [0..<nat (test_size (tests (regs 0) ! ti))])
             else []) @
            [Waitall (length (ledger regs ti r)), Delete_requests, Delete_statuses,
             Delete_send_buff] @
            (if r = 0 then [Delete_counts] else []) @
            (if r = 0 \<and> num_fails_total (world_net regs ti) (test_size (tests (regs 0) ! ti)) \<noteq> 0
             then [Printf (fail_line (tests (regs 0) ! ti))] else []) @
            [Barrier, Comm_free], l')" and t: "fails t = ledger regs ti r"
    by blast
  have r: "sent (concat (map (\<lambda>ri. concat (map (\<lambda>fi.
                 [Recv (int ri) (int fi) (fail_message (int ri) (ledger regs ti (int ri) ! fi)),
                  Printf (cstr (fail_message (int ri) (ledger regs ti (int ri) ! fi)) @ newline)])
                 [0..<length (ledger regs ti (int ri))]))
               [0..<nat (test_size (tests (regs 0) ! ti))])) = []"
    by (rule passive_sent)
       (auto simp: list_all_iff is_recv_def is_print_def)
  have s: "sent ([Comm_split 1 r] @
            (if r = 0 then [Printf (running_line (tests (regs 0) ! ti))] else []) @
            [Entry ti, Gather (int (length (ledger regs ti r)))] @
            (if r = 0 \<and> num_fails_total (world_net regs ti) (test_size (tests (regs 0) ! ti)) = 0
             then [Printf (success_line (tests (regs 0) ! ti))] else []) @
            send_loop r t @
            (if r = 0 then
               concat (map (\<lambda>ri. concat (map (\<lambda>fi.
                 [Recv (int ri) (int fi) (fail_message (int ri) (ledger regs ti (int ri) ! fi)),
                  Printf (cstr (fail_message (int ri) (ledger regs ti (int ri) ! fi)) @ newline)])
                 [0..<length (ledger regs ti (int ri))]))
               [0..<nat (test_size (tests (regs 0) ! ti))])
             else []) @
            [Waitall (length (ledger regs ti r)), Delete_requests, Delete_statuses,
             Delete_send_buff] @
            (if r = 0 then [Delete_counts] else []) @
            (if r = 0 \<and> num_fails_total (world_net regs ti) (test_size (tests (regs 0) ! ti)) \<noteq> 0
             then [Printf (fail_line (tests (regs 0) ! ti))] else []) @
            [Barrier, Comm_free]) = map (\<lambda>fi. (0, int fi, fail_message r (ledger regs ti r ! fi)))
                       [0..<length (ledger regs ti r)]"
    by (simp add: obs sent_send_loop t r)
  have g: "gather_first ([Comm_split 1 r] @
            (if r = 0 then [Printf (running_line (tests (regs 0) ! ti))] else []) @
            [Entry ti, Gather (int (length (ledger regs ti r)))] @
            (if r = 0 \<and> num_fails_total (world_net regs ti) (test_size (tests (regs 0) ! ti)) = 0
             then [Printf (success_line (tests (regs 0) ! ti))] else []) @
            send_loop r t @
            (if r = 0 then
               concat (map (\<lambda>ri. concat (map (\<lambda>fi.
                 [Recv (int ri) (int fi) (fail_message (int ri) (ledger regs ti (int ri) ! fi)),
                  Printf (cstr (fail_message (int ri) (ledger regs ti (int ri) ! fi)) @ newline)])
                 [0..<length (ledger regs ti (int ri))]))
               [0..<nat (test_size (tests (regs 0) ! ti))])
             else []) @
            [Waitall (length (ledger regs ti r)), Delete_requests, Delete_statuses,
             Delete_send_buff] @
            (if r = 0 then [Delete_counts] else []) @
            (if r = 0 \<and> num_fails_total (world_net regs ti) (test_size (tests (regs 0) ! ti)) \<noteq> 0
             then [Printf (fail_line (tests (regs 0) ! ti))] else []) @
            [Barrier, Comm_free])"
    by (simp add: gather_first_def is_gather_def is_issend_def is_recv_def)
  from w s g show ?thesis by blast
qed


lemma world_trace_root:
  assumes "agree regs ti" and "0 < test_size (tests (regs 0) ! ti)" and "fits regs ti"
  shows "\<exists>list' t. world_run_test regs ti 0 = Some ([Comm_split 1 0, Printf (running_line (tests (regs 0) ! ti)),
             Entry ti, Gather (int (length (ledger regs ti 0)))] @
            (if num_fails_total (world_net regs ti) (test_size (tests (regs 0) ! ti)) = 0
             then [Printf (success_line (tests (regs 0) ! ti))] else []) @
            send_loop 0 t @
            concat (map (\<lambda>ri. concat (map (\<lambda>fi.
                 [Recv (int ri) (int fi) (fail_message (int ri) (ledger regs ti (int ri) ! fi)),
                  Printf (cstr (fail_message (int ri) (ledger regs ti (int ri) ! fi)) @ newline)])
                 [0..<length (ledger regs ti (int ri))]))
               [0..<nat (test_size (tests (regs 0) ! ti))]) @
            [Waitall (length (ledger regs ti 0)), Delete_requests, Delete_statuses,
             Delete_send_buff, Delete_counts] @
            (if num_fails_total (world_net regs ti) (test_size (tests (regs 0) ! ti)) = 0
             then [] else [Printf (fail_line (tests (regs 0) ! ti))]) @
            [Barrier, Comm_free], list')"
  using world_trace [OF assms] by auto

lemma received_root_loop:
  "received (concat (map (\<lambda>ri. concat (map (\<lambda>fi. [Recv (int ri) (int fi) (g ri fi), Printf (h ri fi)])
      (js ri))) is)) = concat (map (\<lambda>ri. map (\<lambda>fi. (int ri, int fi, g ri fi)) (js ri)) is)"
  by (induction "is") (simp_all add: obs received_recv_indices)

lemma prints_root_loop:
  "prints (concat (map (\<lambda>ri. concat (map (\<lambda>fi. [Recv (int ri) (int fi) (g ri fi), Printf (h ri fi)])
      (js ri))) is)) = concat (map (\<lambda>ri. map (\<lambda>fi. h ri fi) (js ri)) is)"
  by (induction "is") (simp_all add: obs prints_recv_indices)

lemma map_root_loop:
  "map (\<lambda>(s, t, m). k m) (concat (map (\<lambda>ri. map (\<lambda>fi. (int ri, int fi, g ri fi)) (js ri)) is)) =
   concat (map (\<lambda>ri. map (\<lambda>fi. k (g ri fi)) (js ri)) is)"
  by (induction "is") simp_all


lemma world_root:
  assumes "agree regs ti" and "0 < test_size (tests (regs 0) ! ti)" and "fits regs ti"
  shows "\<exists>es list'. world_run_test regs ti 0 = Some (es, list') \<and>
           received es =
             concat (map (\<lambda>ri. map (\<lambda>fi. (int ri, int fi,
                                     fail_message (int ri) (ledger regs ti (int ri) ! fi)))
                                 [0..<length (ledger regs ti (int ri))])
                       [0..<nat (test_size (tests (regs 0) ! ti))]) \<and>
           prints es =
             [running_line (tests (regs 0) ! ti)] @
             (if num_fails_total (world_net regs ti) (test_size (tests (regs 0) ! ti)) = 0
              then [success_line (tests (regs 0) ! ti)] else []) @
             map (\<lambda>(s, t, m). cstr m @ newline) (received es) @
             (if num_fails_total (world_net regs ti) (test_size (tests (regs 0) ! ti)) = 0
              then [] else [fail_line (tests (regs 0) ! ti)])"
proof -
  let ?R = "concat (map (\<lambda>ri. map (\<lambda>fi. (int ri, int fi,
                                     fail_message (int ri) (ledger regs ti (int ri) ! fi)))
                                 [0..<length (ledger regs ti (int ri))])
                       [0..<nat (test_size (tests (regs 0) ! ti))])"
  from world_trace_root [OF assms] obtain l' t where
    w: "world_run_test regs ti 0 = Some ([Comm_split 1 0, Printf (running_line (tests (regs 0) ! ti)),
             Entry ti, Gather (int (length (ledger regs ti 0)))] @
            (if num_fails_total (world_net regs ti) (test_size (tests (regs 0) ! ti)) = 0
             then [Printf (success_line (tests (regs 0) ! ti))] else []) @
            send_loop 0 t @
            concat (map (\<lambda>ri. concat (map (\<lambda>fi.
                 [Recv (int ri) (int fi) (fail_message (int ri) (ledger regs ti (int ri) ! fi)),
                  Printf (cstr (fail_message (int ri) (ledger regs ti (int ri) ! fi)) @ newline)])
                 [0..<length (ledger regs ti (int ri))]))
               [0..<nat (test_size (tests (regs 0) ! ti))]) @
            [Waitall (length (ledger regs ti 0)), Delete_requests, Delete_statuses,
             Delete_send_buff, Delete_counts] @
            (if num_fails_total (world_net regs ti) (test_size (tests (regs 0) ! ti)) = 0
             then [] else [Printf (fail_line (tests (regs 0) ! ti))]) @
            [Barrier, Comm_free], l')"
    by blast
  have r: "received ([Comm_split 1 0, Printf (running_line (tests (regs 0) ! ti)),
             Entry ti, Gather (int (length (ledger regs ti 0)))] @
            (if num_fails_total (world_net regs ti) (test_size (tests (regs 0) ! ti)) = 0
             then [Printf (success_line (tests (regs 0) ! ti))] else []) @
            send_loop 0 t @
            concat (map (\<lambda>ri. concat (map (\<lambda>fi.
                 [Recv (int ri) (int fi) (fail_message (int ri) (ledger regs ti (int ri) ! fi)),
                  Printf (cstr (fail_message (int ri) (ledger regs ti (int ri) ! fi)) @ newline)])
                 [0..<length (ledger regs ti (int ri))]))
               [0..<nat (test_size (tests (regs 0) ! ti))]) @
            [Waitall (length (ledger regs ti 0)), Delete_requests, Delete_statuses,
             Delete_send_buff, Delete_counts] @
            (if num_fails_total (world_net regs ti) (test_size (tests (regs 0) ! ti)) = 0
             then [] else [Printf (fail_line (tests (regs 0) ! ti))]) @
            [Barrier, Comm_free]) = ?R"
    by (simp add: obs received_send_loop received_root_loop)
  have p: "prints ([Comm_split 1 0, Printf (running_line (tests (regs 0) ! ti)),
             Entry ti, Gather (int (length (ledger regs ti 0)))] @
            (if num_fails_total (world_net regs ti) (test_size (tests (regs 0) ! ti)) = 0
             then [Printf (success_line (tests (regs 0) ! ti))] else []) @
            send_loop 0 t @
            concat (map (\<lambda>ri. concat (map (\<lambda>fi.
                 [Recv (int ri) (int fi) (fail_message (int ri) (ledger regs ti (int ri) ! fi)),
                  Printf (cstr (fail_message (int ri) (ledger regs ti (int ri) ! fi)) @ newline)])
                 [0..<length (ledger regs ti (int ri))]))
               [0..<nat (test_size (tests (regs 0) ! ti))]) @
            [Waitall (length (ledger regs ti 0)), Delete_requests, Delete_statuses,
             Delete_send_buff, Delete_counts] @
            (if num_fails_total (world_net regs ti) (test_size (tests (regs 0) ! ti)) = 0
             then [] else [Printf (fail_line (tests (regs 0) ! ti))]) @
            [Barrier, Comm_free]) =
             [running_line (tests (regs 0) ! ti)] @
             (if num_fails_total (world_net regs ti) (test_size (tests (regs 0) ! ti)) = 0
              then [success_line (tests (regs 0) ! ti)] else []) @
             map (\<lambda>(s, t, m). cstr m @ newline) ?R @
             (if num_fails_total (world_net regs ti) (test_size (tests (regs 0) ! ti)) = 0
              then [] else [fail_line (tests (regs 0) ! ti)])"
    by (simp add: obs prints_send_loop prints_root_loop map_root_loop)
  show ?thesis
    apply (rule exI [of _ "[Comm_split 1 0, Printf (running_line (tests (regs 0) ! ti)),
             Entry ti, Gather (int (length (ledger regs ti 0)))] @
            (if num_fails_total (world_net regs ti) (test_size (tests (regs 0) ! ti)) = 0
             then [Printf (success_line (tests (regs 0) ! ti))] else []) @
            send_loop 0 t @
            concat (map (\<lambda>ri. concat (map (\<lambda>fi.
                 [Recv (int ri) (int fi) (fail_message (int ri) (ledger regs ti (int ri) ! fi)),
                  Printf (cstr (fail_message (int ri) (ledger regs ti (int ri) ! fi)) @ newline)])
                 [0..<length (ledger regs ti (int ri))]))
               [0..<nat (test_size (tests (regs 0) ! ti))]) @
            [Waitall (length (ledger regs ti 0)), Delete_requests, Delete_statuses,
             Delete_send_buff, Delete_counts] @
            (if num_fails_total (world_net regs ti) (test_size (tests (regs 0) ! ti)) = 0
             then [] else [Printf (fail_line (tests (regs 0) ! ti))]) @
            [Barrier, Comm_free]"])
    apply (rule exI [of _ l'])
    apply (simp only: w r p)
    done
qed


text \<open>
  Claim C1. \<open>regs\<close> holds the registry of every process at the start of iteration
  \<open>ti\<close>; the launch check of \<^verbatim>\<open>main\<close> makes every rank below \<open>test_size\<close> a live
  participant, and the ledgers fit the \<^verbatim>\<open>int\<close> arithmetic of the source: each
  holds at most 2097152 records, so that every slot offset
  \<^verbatim>\<open>FAIL_MESSAGE_SIZE * fi\<close> is in range, and together they hold at most \<open>INT_MAX\<close>.
  If some participant has a recorded failure, the process of rank 0
  completes the iteration; it receives, and prints on receipt, the message of every
  record of every participant exactly once, the participants in ascending rank and
  the records of a participant in ascending ledger index, between the start line and
  the failure line. Every participant sends one message per record of its ledger,
  with the index of the record as tag, to rank 0; and in its program order its call
  of the gather precedes every send and every receive it makes.
\<close>

theorem failures_reported_in_order:
  assumes "agree regs ti"
    and "\<exists>ri \<in> set [0..<nat (test_size (tests (regs 0) ! ti))]. ledger regs ti (int ri) \<noteq> []"
    and "fits regs ti"
  shows "(\<exists>es list'. world_run_test regs ti 0 = Some (es, list') \<and>
            received es =
              concat (map (\<lambda>ri. map (\<lambda>fi. (int ri, int fi,
                                      fail_message (int ri) (ledger regs ti (int ri) ! fi)))
                                  [0..<length (ledger regs ti (int ri))])
                        [0..<nat (test_size (tests (regs 0) ! ti))]) \<and>
            prints es =
              [running_line (tests (regs 0) ! ti)] @
              map (\<lambda>(s, t, m). cstr m @ newline) (received es) @
              [fail_line (tests (regs 0) ! ti)]) \<and>
         (\<forall>r. 0 \<le> r \<and> r < test_size (tests (regs 0) ! ti) \<longrightarrow>
            (\<exists>es list'. world_run_test regs ti r = Some (es, list') \<and>
               sent es = map (\<lambda>fi. (0, int fi, fail_message r (ledger regs ti r ! fi)))
                           [0..<length (ledger regs ti r)] \<and>
               gather_first es))"
proof -
  from assms(2) have pos: "0 < test_size (tests (regs 0) ! ti)" by auto
  from assms(2) have nz: "num_fails_total (world_net regs ti) (test_size (tests (regs 0) ! ti)) \<noteq> 0"
    by (simp only: world_total_zero) blast
  from world_root [OF assms(1) pos assms(3)] nz
  have root: "\<exists>es list'. world_run_test regs ti 0 = Some (es, list') \<and>
            received es =
              concat (map (\<lambda>ri. map (\<lambda>fi. (int ri, int fi,
                                      fail_message (int ri) (ledger regs ti (int ri) ! fi)))
                                  [0..<length (ledger regs ti (int ri))])
                        [0..<nat (test_size (tests (regs 0) ! ti))]) \<and>
            prints es =
              [running_line (tests (regs 0) ! ti)] @
              map (\<lambda>(s, t, m). cstr m @ newline) (received es) @
              [fail_line (tests (regs 0) ! ti)]"
    by (simp only: if_False append_Nil)
  from world_sent [OF assms(1) _ assms(3)] root show ?thesis by blast
qed

lemma participant_nat:
  "0 \<le> r \<Longrightarrow> r < sz \<Longrightarrow> nat r \<in> set [0..<nat sz] \<and> int (nat r) = r"
  by auto

text \<open>
  Claim C8. The ledgers fit the \<^verbatim>\<open>int\<close> arithmetic of the source (at most
  2097152 records each, at most \<open>INT_MAX\<close> together). When the counts
  gathered at rank 0 sum to zero, rank 0 prints the start
  line and the success line and receives nothing, and no participant sends a message.
  Whatever the other counts are, a participant whose ledger is empty sends nothing,
  and rank 0 makes no receive from it.
\<close>

theorem no_failures_no_messages:
  assumes "agree regs ti" and "0 < test_size (tests (regs 0) ! ti)" and "fits regs ti"
  shows "(num_fails_total (world_net regs ti) (test_size (tests (regs 0) ! ti)) = 0 \<longrightarrow>
            (\<exists>es list'. world_run_test regs ti 0 = Some (es, list') \<and> received es = [] \<and>
               prints es = [running_line (tests (regs 0) ! ti),
                            success_line (tests (regs 0) ! ti)]) \<and>
            (\<forall>r. 0 \<le> r \<and> r < test_size (tests (regs 0) ! ti) \<longrightarrow>
               (\<exists>es list'. world_run_test regs ti r = Some (es, list') \<and> sent es = []))) \<and>
         (\<forall>r. 0 \<le> r \<and> r < test_size (tests (regs 0) ! ti) \<and> ledger regs ti r = [] \<longrightarrow>
            (\<exists>es list'. world_run_test regs ti r = Some (es, list') \<and> sent es = []) \<and>
            (\<exists>es list'. world_run_test regs ti 0 = Some (es, list') \<and>
               r \<notin> fst ` set (received es)))"
proof -
  let ?sz = "test_size (tests (regs 0) ! ti)"
  let ?R = "concat (map (\<lambda>ri. map (\<lambda>fi. (int ri, int fi,
                                     fail_message (int ri) (ledger regs ti (int ri) ! fi)))
                                 [0..<length (ledger regs ti (int ri))])
                       [0..<nat ?sz])"
  from world_root [OF assms] obtain es0 l0 where
    w0: "world_run_test regs ti 0 = Some (es0, l0)" and r0: "received es0 = ?R"
    and p0: "prints es0 =
             [running_line (tests (regs 0) ! ti)] @
             (if num_fails_total (world_net regs ti) ?sz = 0
              then [success_line (tests (regs 0) ! ti)] else []) @
             map (\<lambda>(s, t, m). cstr m @ newline) (received es0) @
             (if num_fails_total (world_net regs ti) ?sz = 0
              then [] else [fail_line (tests (regs 0) ! ti)])"
    by blast
  have quiet: "\<exists>es list'. world_run_test regs ti r = Some (es, list') \<and> sent es = []"
    if "0 \<le> r" "r < ?sz" "ledger regs ti r = []" for r
    using world_sent [OF assms(1) that(2) assms(3) that(1)] that(3) by auto
  have absent: "r \<notin> fst ` set ?R" if "ledger regs ti r = []" for r
    using that by auto
  have zero: "received es0 = [] \<and>
      prints es0 = [running_line (tests (regs 0) ! ti), success_line (tests (regs 0) ! ti)] \<and>
      (\<forall>r. 0 \<le> r \<and> r < ?sz \<longrightarrow>
         (\<exists>es list'. world_run_test regs ti r = Some (es, list') \<and> sent es = []))"
    if z: "num_fails_total (world_net regs ti) ?sz = 0"
  proof -
    from z have e: "\<forall>ri \<in> set [0..<nat ?sz]. ledger regs ti (int ri) = []"
      by (simp only: world_total_zero)
    then have R: "?R = []" by simp
    have "\<exists>es list'. world_run_test regs ti r = Some (es, list') \<and> sent es = []"
      if "0 \<le> r" "r < ?sz" for r
    proof -
      from participant_nat [OF that] have n: "nat r \<in> set [0..<nat ?sz]" "int (nat r) = r"
        by simp_all
      from e n(1) have "ledger regs ti (int (nat r)) = []" by blast
      then have "ledger regs ti r = []" by (simp only: n(2))
      from quiet [OF that this] show ?thesis .
    qed
    with R r0 p0 z show ?thesis by simp
  qed
  from zero w0 have first: "num_fails_total (world_net regs ti) ?sz = 0 \<longrightarrow>
            (\<exists>es list'. world_run_test regs ti 0 = Some (es, list') \<and> received es = [] \<and>
               prints es = [running_line (tests (regs 0) ! ti),
                            success_line (tests (regs 0) ! ti)]) \<and>
            (\<forall>r. 0 \<le> r \<and> r < ?sz \<longrightarrow>
               (\<exists>es list'. world_run_test regs ti r = Some (es, list') \<and> sent es = []))"
    by blast
  have second: "\<forall>r. 0 \<le> r \<and> r < ?sz \<and> ledger regs ti r = [] \<longrightarrow>
            (\<exists>es list'. world_run_test regs ti r = Some (es, list') \<and> sent es = []) \<and>
            (\<exists>es list'. world_run_test regs ti 0 = Some (es, list') \<and>
               r \<notin> fst ` set (received es))"
  proof (intro allI impI)
    fix r
    assume a: "0 \<le> r \<and> r < ?sz \<and> ledger regs ti r = []"
    then have l: "0 \<le> r" "r < ?sz" "ledger regs ti r = []" by simp_all
    from absent [OF l(3)] have "r \<notin> fst ` set (received es0)" unfolding r0 .
    with w0 have "\<exists>es list'. world_run_test regs ti 0 = Some (es, list') \<and>
               r \<notin> fst ` set (received es)" by blast
    with quiet [OF l] show "(\<exists>es list'. world_run_test regs ti r = Some (es, list') \<and> sent es = []) \<and>
            (\<exists>es list'. world_run_test regs ti 0 = Some (es, list') \<and>
               r \<notin> fst ` set (received es))" by blast
  qed
  from first second show ?thesis by blast
qed


lemma send_loop_events: "list_all (\<lambda>e. e \<noteq> Delete_send_buff \<and> e \<noteq> Barrier) (send_loop r t)"
  by (auto simp: send_loop_def list_all_iff)

lemma passive_events:
  "list_all (\<lambda>e. is_recv e \<or> is_print e) rs \<Longrightarrow>
   list_all (\<lambda>e. e \<noteq> Delete_send_buff \<and> e \<noteq> Barrier) rs"
  by (auto simp: list_all_iff is_recv_def is_print_def)

lemma participant_shape:
  assumes "run_test r ti nt list0 = Some (es, list')" and "r < test_size (tests list0 ! ti)"
  shows "\<exists>pre post. es = pre @ Waitall (length (sent es)) # post \<and> sent post = [] \<and>
           Delete_send_buff \<notin> set pre \<and> Delete_send_buff \<in> set post \<and>
           Barrier \<notin> set pre \<and> Barrier \<in> set post"
proof -
  from run_test_participant [OF assms] obtain rs where
    rs: "(if r = 0 then recv_loop nt [0..<nat (test_size (tests list0 ! ti))] else Some []) = Some rs"
    and es: "es = [Comm_split 1 r] @
                (if r = 0 then [Printf (running_line (tests list' ! ti))] else []) @
                [Entry ti, Gather (int (length (fails (tests list' ! ti))))] @
                (if r = 0 \<and> num_fails_total nt (test_size (tests list0 ! ti)) = 0
                 then [Printf (success_line (tests list' ! ti))] else []) @
                send_loop r (tests list' ! ti) @ rs @
                [Waitall (length (fails (tests list' ! ti))), Delete_requests, Delete_statuses,
                 Delete_send_buff] @
                (if r = 0 then [Delete_counts] else []) @
                (if r = 0 \<and> num_fails_total nt (test_size (tests list0 ! ti)) \<noteq> 0
                 then [Printf (fail_line (tests list' ! ti))] else []) @
                [Barrier, Comm_free]"
    by blast
  let ?pre = "[Comm_split 1 r] @
                (if r = 0 then [Printf (running_line (tests list' ! ti))] else []) @
                [Entry ti, Gather (int (length (fails (tests list' ! ti))))] @
                (if r = 0 \<and> num_fails_total nt (test_size (tests list0 ! ti)) = 0
                 then [Printf (success_line (tests list' ! ti))] else []) @
                send_loop r (tests list' ! ti) @ rs"
  let ?post = "[Delete_requests, Delete_statuses, Delete_send_buff] @
                (if r = 0 then [Delete_counts] else []) @
                (if r = 0 \<and> num_fails_total nt (test_size (tests list0 ! ti)) \<noteq> 0
                 then [Printf (fail_line (tests list' ! ti))] else []) @
                [Barrier, Comm_free]"
  note pa = root_receives_passive [OF rs]
  have s: "sent es = sent (send_loop r (tests list' ! ti))"
    unfolding es by (simp add: obs passive_sent [OF pa])
  have n: "length (sent es) = length (fails (tests list' ! ti))"
    by (simp add: s sent_send_loop)
  have e: "es = ?pre @ Waitall (length (sent es)) # ?post"
    unfolding n by (subst es) simp
  have sp: "sent ?post = []" by (simp add: obs)
  from send_loop_events [of r "tests list' ! ti"] passive_events [OF pa]
  have np: "Delete_send_buff \<notin> set ?pre \<and> Barrier \<notin> set ?pre"
    by (auto simp: list_all_iff)
  have ip: "Delete_send_buff \<in> set ?post \<and> Barrier \<in> set ?post" by simp
  from e sp np ip show ?thesis by blast
qed

lemma world_buffer_discipline:
  assumes "agree regs ti" and "fits regs ti" and "0 \<le> r"
  shows "\<exists>es list'. world_run_test regs ti r = Some (es, list') \<and>
           buffer_run {} es = Some {} \<and>
           (if r < test_size (tests (regs 0) ! ti) then
              \<exists>pre post. es = pre @ Waitall (length (sent es)) # post \<and> sent post = [] \<and>
                Delete_send_buff \<notin> set pre \<and> Delete_send_buff \<in> set post \<and>
                Barrier \<notin> set pre \<and> Barrier \<in> set post
            else sent es = [])"
proof -
  from world_returns [OF assms] obtain es l' where
    w: "world_run_test regs ti r = Some (es, l')" by blast
  then have rt: "run_test r ti (world_net regs ti) (regs r) = Some (es, l')"
    by (simp add: world_run_test_def)
  from assms(1) have a: "test_size (tests (regs r) ! ti) = test_size (tests (regs 0) ! ti)"
    by (simp add: agree_def)
  have b: "buffer_run {} es = Some {}" by (rule buffer_participant [OF rt])
  show ?thesis
  proof (cases "r < test_size (tests (regs 0) ! ti)")
    case True
    then have "r < test_size (tests (regs r) ! ti)" by (simp add: a)
    from participant_shape [OF rt this] w b True show ?thesis by (simp only: if_True) blast
  next
    case False
    with rt a have "es = [Comm_split 0 r, Barrier, Comm_free]"
      by (simp add: run_test_def Let_def)
    then have "sent es = []" by (simp add: obs)
    with w b False show ?thesis by (simp only: if_False) blast
  qed
qed


lemma buffer_run_tests:
  "run_tests r nets tis list = Some (es, list') \<Longrightarrow> buffer_run {} es = Some {}"
proof (induction tis arbitrary: list es)
  case Nil
  then show ?case by simp
next
  case (Cons ti tis)
  from Cons.prems obtain a l1 b where
    ab: "run_test r ti (nets ti) list = Some (a, l1)" "run_tests r nets tis l1 = Some (b, list')"
      "es = a @ b"
    by (auto split: option.splits)
  from buffer_participant [OF ab(1)] Cons.IH [OF ab(2)] ab(3) show ?case
    by (simp add: buffer_run_append)
qed

lemma buffer_main:
  assumes "main_proc r size' nets list = Some (es, code)"
  shows "buffer_run {} es = Some {}"
proof (cases "size' < largest_test_size (tests list)")
  case True
  with assms show ?thesis by (auto simp: main_proc_def Let_def)
next
  case False
  with assms obtain b l' where
    b: "run_tests r nets [0..<length (tests list)] list = Some (b, l')"
    and es: "es = (if r = 0 then [Printf (newline @ newline)] else []) @ [Barrier] @ [Barrier] @
               b @ [Finalize]"
    by (auto simp: main_proc_def Let_def)
  from buffer_run_tests [OF b] show ?thesis
    unfolding es by (simp add: buffer_run_append)
qed

text \<open>
  Claim C9. With ledgers that fit the \<^verbatim>\<open>int\<close> arithmetic of the source (at most
  2097152 records each, at most \<open>INT_MAX\<close> together), in every
  iteration every process completes, and its trace keeps the
  discipline of the send buffer: no slot is written or sent again while its send is
  in flight, and \<^verbatim>\<open>MPI_Waitall\<close> on all the requests of the iteration comes after the
  last send and before both the release of the send buffer and the barrier that ends
  the iteration. The same discipline holds along any whole run of \<^verbatim>\<open>main\<close> that
  returns.
\<close>

theorem sends_complete_before_release:
  assumes "agree regs ti" and "fits regs ti" and "0 \<le> r"
  shows "(\<exists>es list'. world_run_test regs ti r = Some (es, list') \<and>
            buffer_run {} es = Some {} \<and>
            (if r < test_size (tests (regs 0) ! ti) then
               \<exists>pre post. es = pre @ Waitall (length (sent es)) # post \<and> sent post = [] \<and>
                 Delete_send_buff \<notin> set pre \<and> Delete_send_buff \<in> set post \<and>
                 Barrier \<notin> set pre \<and> Barrier \<in> set post
             else sent es = [])) \<and>
         (\<forall>size' nets list es code.
            main_proc r size' nets list = Some (es, code) \<longrightarrow> buffer_run {} es = Some {})"
  using world_buffer_discipline [OF assms] buffer_main [of r] by blast

subsection \<open>The statements on the sample runs\<close>

lemma put_digits: "put_int 0 = ''0''" "put_int 2 = ''2''" "put_int 3 = ''3''" "put_int 4 = ''4''"
  "put_int 31 = ''31''" "put_int 61 = ''61''" "put_int 62 = ''62''"
  by (simp_all add: put_int_def put_nat.simps)

lemma sample_ledgers:
  "ledger sample_world 0 0 = [sample_fail 31 ''3 does not equal 4'']"
  "ledger sample_world 0 1 = []"
  "ledger sample_world 0 2 =
     [sample_fail 61 ''1 does not equal 2'', sample_fail 62 ''0 does not equal 1'']"
  by (simp_all add: ledger_def after_entry_def sample_world_def add_test_def instance_init_def
      sample_body_def register_error_def Let_def)

lemma sample_agree: "agree sample_world 0"
  by (simp add: agree_def sample_world_def add_test_def instance_init_def)

lemma sample_ranks: "[0..<nat 3] = [0, 1, 2]"
  by (simp add: numeral_3_eq_3)

lemma sample_size: "test_size (tests (sample_world 0) ! 0) = 3"
  "test_name (tests (sample_world 0) ! 0) = ''sample_test''"
  by (simp_all add: sample_world_def add_test_def instance_init_def)


lemma sample_fits: "fits sample_world 0"
  unfolding fits_def sample_size sample_ranks
  by (simp add: sample_ledgers INT_MAX_def offsets_fit_iff)

lemma sample_some_failure:
  "\<exists>ri \<in> set [0..<nat (test_size (tests (sample_world 0) ! 0))].
     ledger sample_world 0 (int ri) \<noteq> []"
  by (rule bexI [of _ 0]) (simp_all add: sample_size sample_ledgers)

lemma sample_messages:
  "fail_message 0 (sample_fail 31 ''3 does not equal 4'') =
     ''  EXPECT_EQ(a, b) FAILED (on proc 0 line 31 of dummy_tests.cpp)'' @ newline @
     ''    3 does not equal 4''"
  "fail_message 2 (sample_fail 61 ''1 does not equal 2'') =
     ''  EXPECT_EQ(a, b) FAILED (on proc 2 line 61 of dummy_tests.cpp)'' @ newline @
     ''    1 does not equal 2''"
  "fail_message 2 (sample_fail 62 ''0 does not equal 1'') =
     ''  EXPECT_EQ(a, b) FAILED (on proc 2 line 62 of dummy_tests.cpp)'' @ newline @
     ''    0 does not equal 1''"
  by (simp_all add: fail_message_def sample_fail_def cstr_def newline_def put_digits
      FAIL_MESSAGE_SIZE_def)

lemma quiet_agree: "agree quiet_world 0"
  by (simp add: agree_def quiet_world_def sample_registry_def add_test_def instance_init_def)

lemma quiet_size: "test_size (tests (quiet_world 0) ! 0) = 1"
  "test_name (tests (quiet_world 0) ! 0) = ''serial_add''"
  by (simp_all add: quiet_world_def sample_registry_def add_test_def instance_init_def)

lemma quiet_ledger: "ledger quiet_world 0 r = []"
  by (simp add: ledger_def after_entry_def quiet_world_def sample_registry_def add_test_def
      instance_init_def Let_def)

lemma quiet_fits: "fits quiet_world 0"
  by (simp add: fits_def quiet_ledger INT_MAX_def offsets_fit_iff list_all_iff)

lemma quiet_total: "num_fails_total (world_net quiet_world 0) (test_size (tests (quiet_world 0) ! 0)) = 0"
  by (simp add: world_total_zero quiet_ledger)

text \<open>
  Claim C2 at the registry with tests of two and of four processes, launched on two
  processes.
\<close>

theorem too_few_processes_witness:
  "tests dummy_registry \<noteq> [] \<and> (0::int) < 2 \<and>
   2 < Max (set (map test_size (tests dummy_registry))) \<and>
   main_proc 0 2 (\<lambda>_. silent_net) dummy_registry =
     Some ([Printf (newline @ newline), Barrier,
            Printf (''please launch with at least 4 procs!'' @ newline), Finalize], 0) \<and>
   main_proc 1 2 (\<lambda>_. silent_net) dummy_registry = Some ([Barrier, Finalize], 0)"
proof -
  have t: "map test_size (tests dummy_registry) = [2, 4]"
    by (simp add: dummy_registry_def add_test_def instance_init_def)
  have h: "tests dummy_registry \<noteq> []" "(0::int) < 2"
    "2 < Max (set (map test_size (tests dummy_registry)))"
    unfolding t by (simp_all add: dummy_registry_def add_test_def instance_init_def)
  from too_few_processes [OF h, of 0 "\<lambda>_. silent_net"]
    too_few_processes [OF h, of 1 "\<lambda>_. silent_net"] h
  show ?thesis unfolding t by (simp add: please_line_def put_digits)
qed

text \<open>
  Claim C1 on the sample test: rank 0 has one failure, rank 1 none, rank 2 two.
\<close>

theorem failures_reported_in_order_witness:
  "agree sample_world 0 \<and> fits sample_world 0 \<and> ledger sample_world 0 0 \<noteq> [] \<and>
   (\<exists>es list'. world_run_test sample_world 0 0 = Some (es, list') \<and>
      map fst (received es) = [0, 2, 2] \<and>
      prints es =
        [''[ RUNNING ] sample_test (3 procs)'' @ newline,
         ''  EXPECT_EQ(a, b) FAILED (on proc 0 line 31 of dummy_tests.cpp)'' @ newline @
         ''    3 does not equal 4'' @ newline,
         ''  EXPECT_EQ(a, b) FAILED (on proc 2 line 61 of dummy_tests.cpp)'' @ newline @
         ''    1 does not equal 2'' @ newline,
         ''  EXPECT_EQ(a, b) FAILED (on proc 2 line 62 of dummy_tests.cpp)'' @ newline @
         ''    0 does not equal 1'' @ newline,
         ''[ FAIL    ] sample_test'' @ newline]) \<and>
   (\<exists>es list'. world_run_test sample_world 0 2 = Some (es, list') \<and>
      map (fst \<circ> snd) (sent es) = [0, 1] \<and> gather_first es)"
proof -
  note th = failures_reported_in_order [OF sample_agree sample_some_failure sample_fits]
  from th obtain es l' where
    w: "world_run_test sample_world 0 0 = Some (es, l')"
    and r: "received es =
              concat (map (\<lambda>ri. map (\<lambda>fi. (int ri, int fi,
                                      fail_message (int ri) (ledger sample_world 0 (int ri) ! fi)))
                                  [0..<length (ledger sample_world 0 (int ri))])
                        [0..<nat (test_size (tests (sample_world 0) ! 0))])"
    and p: "prints es =
              [running_line (tests (sample_world 0) ! 0)] @
              map (\<lambda>(s, t, m). cstr m @ newline) (received es) @
              [fail_line (tests (sample_world 0) ! 0)]"
    by blast
  have r': "received es =
      [(0, 0, fail_message 0 (sample_fail 31 ''3 does not equal 4'')),
       (2, 0, fail_message 2 (sample_fail 61 ''1 does not equal 2'')),
       (2, 1, fail_message 2 (sample_fail 62 ''0 does not equal 1''))]"
    unfolding r sample_size sample_ranks by (simp add: sample_ledgers)
  have p': "prints es =
        [''[ RUNNING ] sample_test (3 procs)'' @ newline,
         ''  EXPECT_EQ(a, b) FAILED (on proc 0 line 31 of dummy_tests.cpp)'' @ newline @
         ''    3 does not equal 4'' @ newline,
         ''  EXPECT_EQ(a, b) FAILED (on proc 2 line 61 of dummy_tests.cpp)'' @ newline @
         ''    1 does not equal 2'' @ newline,
         ''  EXPECT_EQ(a, b) FAILED (on proc 2 line 62 of dummy_tests.cpp)'' @ newline @
         ''    0 does not equal 1'' @ newline,
         ''[ FAIL    ] sample_test'' @ newline]"
    unfolding p r' sample_messages
    by (simp add: running_line_def fail_line_def sample_size cstr_def newline_def put_digits)
  from th have "\<exists>es list'. world_run_test sample_world 0 2 = Some (es, list') \<and>
      sent es = map (\<lambda>fi. (0, int fi, fail_message 2 (ledger sample_world 0 2 ! fi)))
                           [0..<length (ledger sample_world 0 2)] \<and> gather_first es"
    by (simp add: sample_size)
  then obtain es2 l2 where
    w2: "world_run_test sample_world 0 2 = Some (es2, l2)" "gather_first es2"
    and s2: "sent es2 = map (\<lambda>fi. (0, int fi, fail_message 2 (ledger sample_world 0 2 ! fi)))
                           [0..<length (ledger sample_world 0 2)]"
    by blast
  have s2': "map (fst \<circ> snd) (sent es2) = [0, 1]"
    unfolding s2 by (simp add: sample_ledgers numeral_2_eq_2)
  from w r' p' w2 s2' sample_agree sample_fits show ?thesis by (simp add: sample_ledgers)
qed

text \<open>
  Claim C8 on a test without failures, and on the sample test for rank 1, whose
  ledger is empty while those of ranks 0 and 2 are not.
\<close>

theorem no_failures_no_messages_witness:
  "agree quiet_world 0 \<and> 0 < test_size (tests (quiet_world 0) ! 0) \<and> fits quiet_world 0 \<and>
   num_fails_total (world_net quiet_world 0) (test_size (tests (quiet_world 0) ! 0)) = 0 \<and>
   (\<exists>es list'. world_run_test quiet_world 0 0 = Some (es, list') \<and> received es = [] \<and>
      sent es = [] \<and>
      prints es = [''[ RUNNING ] serial_add (1 proc)'' @ newline,
                   ''[ SUCCESS ] serial_add'' @ newline]) \<and>
   agree sample_world 0 \<and> 0 < test_size (tests (sample_world 0) ! 0) \<and> fits sample_world 0 \<and>
   ledger sample_world 0 1 = [] \<and> ledger sample_world 0 2 \<noteq> [] \<and>
   (\<exists>es list'. world_run_test sample_world 0 1 = Some (es, list') \<and> sent es = []) \<and>
   (\<exists>es list'. world_run_test sample_world 0 0 = Some (es, list') \<and>
      1 \<notin> fst ` set (received es))"
proof -
  have q: "0 < test_size (tests (quiet_world 0) ! 0)" by (simp add: quiet_size)
  have s: "0 < test_size (tests (sample_world 0) ! 0)" by (simp add: sample_size)
  note tq = no_failures_no_messages [OF quiet_agree q quiet_fits]
  note ts = no_failures_no_messages [OF sample_agree s sample_fits]
  from tq quiet_total obtain es l' where
    w: "world_run_test quiet_world 0 0 = Some (es, l')" "received es = []"
    and p: "prints es = [running_line (tests (quiet_world 0) ! 0),
                          success_line (tests (quiet_world 0) ! 0)]"
    by blast
  from tq quiet_total q have "\<exists>es list'. world_run_test quiet_world 0 0 = Some (es, list') \<and> sent es = []"
    by (simp add: quiet_size)
  with w(1) have se: "sent es = []" by auto
  have p': "prints es = [''[ RUNNING ] serial_add (1 proc)'' @ newline,
                   ''[ SUCCESS ] serial_add'' @ newline]"
    unfolding p
    by (simp add: running_line_def success_line_def quiet_size cstr_def newline_def
        put_int_def put_nat.simps)
  from ts have "(\<exists>es list'. world_run_test sample_world 0 1 = Some (es, list') \<and> sent es = []) \<and>
   (\<exists>es list'. world_run_test sample_world 0 0 = Some (es, list') \<and>
      1 \<notin> fst ` set (received es))"
    by (simp add: sample_size sample_ledgers)
  with w se p' quiet_agree sample_agree q s quiet_total quiet_fits sample_fits show ?thesis
    by (simp add: sample_ledgers)
qed

text \<open>
  Claim C9 on the sample test, with the whole trace of rank 2.
\<close>

theorem sends_complete_before_release_witness:
  "agree sample_world 0 \<and> fits sample_world 0 \<and> (0::int) \<le> 2 \<and>
   (\<exists>es list'. world_run_test sample_world 0 2 = Some (es, list') \<and>
      buffer_run {} es = Some {} \<and>
      (\<exists>pre post. es = pre @ Waitall (length (sent es)) # post \<and> sent post = [] \<and>
         Delete_send_buff \<notin> set pre \<and> Delete_send_buff \<in> set post \<and>
         Barrier \<notin> set pre \<and> Barrier \<in> set post)) \<and>
   map_option fst (world_run_test sample_world 0 2) =
     Some [Comm_split 1 2, Entry 0, Gather 2,
           Snprintf 0 (fail_message 2 (sample_fail 61 ''1 does not equal 2'')),
           Issend 0 (fail_message 2 (sample_fail 61 ''1 does not equal 2'')) 0 0,
           Snprintf 1 (fail_message 2 (sample_fail 62 ''0 does not equal 1'')),
           Issend 1 (fail_message 2 (sample_fail 62 ''0 does not equal 1'')) 0 1,
           Waitall 2, Delete_requests, Delete_statuses, Delete_send_buff,
           Barrier, Comm_free]"
proof -
  have c: "map_option fst (world_run_test sample_world 0 2) =
     Some [Comm_split 1 2, Entry 0, Gather 2,
           Snprintf 0 (fail_message 2 (sample_fail 61 ''1 does not equal 2'')),
           Issend 0 (fail_message 2 (sample_fail 61 ''1 does not equal 2'')) 0 0,
           Snprintf 1 (fail_message 2 (sample_fail 62 ''0 does not equal 1'')),
           Issend 1 (fail_message 2 (sample_fail 62 ''0 does not equal 1'')) 0 1,
           Waitall 2, Delete_requests, Delete_statuses, Delete_send_buff,
           Barrier, Comm_free]"
    by (simp add: world_run_test_def run_test_def after_entry_def sample_world_def add_test_def
        instance_init_def sample_body_def register_error_def Let_def send_loop_def
        numeral_2_eq_2 sample_fail_def INT_MAX_def offsets_fit_iff)
  from sends_complete_before_release [OF sample_agree sample_fits, of 2]
  have "\<exists>es list'. world_run_test sample_world 0 2 = Some (es, list') \<and>
      buffer_run {} es = Some {} \<and>
      (\<exists>pre post. es = pre @ Waitall (length (sent es)) # post \<and> sent post = [] \<and>
         Delete_send_buff \<notin> set pre \<and> Delete_send_buff \<in> set post \<and>
         Barrier \<notin> set pre \<and> Barrier \<in> set post)"
    by (simp add: sample_size)
  with c sample_agree sample_fits show ?thesis by simp
qed

subsection \<open>No failure is dropped\<close>









end
